theory Spec2Isabelle
  imports Main "HOL-Library.Sublist"
begin

section \<open>The dot-path document store of softlance\<close>

text \<open>
  A shallow embedding of \<^verbatim>\<open>src/lib/database/JsonDatabase.ts\<close> and
  \<^verbatim>\<open>src/lib/database/MongoDatabase.ts\<close>. Both classes keep a document of JSON
  values addressed by dotted keys. Every public method first checks the connection flag,
  then validates its arguments, then runs its body inside \<^verbatim>\<open>try { ... } catch\<close>.

  Conventions of the model.
  \<^item> A JavaScript value is a \<open>jsval\<close>, a plain JSON value; \<^verbatim>\<open>undefined\<close> is not a stored
    value and is written \<open>None\<close> of \<open>jsval option\<close>. The values a caller passes to a
    method are plain JSON values as well.
  \<^item> A number is an \<open>int\<close>. Fractions, \<^verbatim>\<open>NaN\<close> and \<^verbatim>\<open>Infinity\<close> are not
    represented, and the sums and differences that \<^verbatim>\<open>add\<close> and \<^verbatim>\<open>subtract\<close> compute are
    followed only while the operands and the result are integers that a double holds
    exactly (\<open>safeInt\<close>).
  \<^item> An object is the association list of its own properties, with distinct keys, a new
    property added at the end. (The runtime lists integer-like keys first; no method
    of the two classes depends on the order of the keys.)
  \<^item> Besides its own properties a value has the members of the built-in prototypes
    (\<^verbatim>\<open>toString\<close>, \<^verbatim>\<open>constructor\<close>, \<^verbatim>\<open>__proto__\<close>, the array and string methods).
    Their names are listed below as the language standard gives them, for a runtime whose
    prototypes the program has not changed. The members themselves are objects of the
    runtime, not data: a statement that reads or assigns a name which the value at hand
    does not own but inherits \<^emph>\<open>leaves\<close> the model.
  \<^item> A string is the list of its code units; \<open>char\<close> covers the units below 256.
  \<^item> The document a method reads is the result of \<^verbatim>\<open>JSON.parse\<close> and the document it
    leaves is what \<^verbatim>\<open>JSON.stringify\<close> writes, so both are plain JSON values: arrays
    without holes and without properties other than their elements.
  \<^item> The methods of the remote backend are asynchronous; the model runs one call at a
    time, each \<^verbatim>\<open>await\<close> completing before the next statement.
  \<^item> \<^verbatim>\<open>process.exit(0)\<close> is the result \<open>Exit\<close>; a thrown exception is \<open>Inl (Throw e)\<close>
    of a sum, caught where the source catches it; every \<^verbatim>\<open>logWarn\<close> of a method is the
    \<open>log\<close> the method returns. A method whose run leaves the model has the result
    \<open>Outside\<close>, about which nothing is stated.
\<close>

subsection \<open>Values\<close>

datatype jsval =
    JNull
  | JBool bool
  | JNum int
  | JStr string
  | JArr "jsval list"
  | JObj "(string \<times> jsval) list"

datatype exn = TypeError | RangeError | ValidationError

text \<open>
  How a run of statements ends before its last statement: it throws, or it leaves the
  model (\<open>Leave\<close>): it touches a member of a built-in prototype, computes with a number
  that is no safe integer, or hands the storage library a value that the library does not
  write as it is.
\<close>

datatype stop = Throw exn | Leave

datatype 'a proc = Exit | Return 'a | Outside

text \<open>
  The \<^verbatim>\<open>catch\<close> block of a method: it logs the exception and the method returns \<open>r\<close>.
\<close>

fun caught :: "stop \<Rightarrow> 'a \<Rightarrow> 'a proc" where
  "caught (Throw e) r = Return r"
| "caught Leave r = Outside"

text \<open>The warning a method logs before it returns; \<open>Done\<close> when it logs none.\<close>

datatype log =
    Done
  | InvalidKey
  | InvalidValue
  | InvalidApproval
  | NotFound
  | NotANumber
  | NotAnArray
  | PathMissing
  | DoesNotExist
  | NoMatch
  | Failed

text \<open>\<^verbatim>\<open>typeof v === "object"\<close>: true of objects, arrays and \<^verbatim>\<open>null\<close>.\<close>

fun typeofObject :: "jsval \<Rightarrow> bool" where
  "typeofObject JNull = True"
| "typeofObject (JArr xs) = True"
| "typeofObject (JObj kvs) = True"
| "typeofObject v = False"

text \<open>The boolean a value converts to, as in \<^verbatim>\<open>!v\<close> and \<^verbatim>\<open>v || {}\<close>.\<close>

fun truthy :: "jsval \<Rightarrow> bool" where
  "truthy JNull = False"
| "truthy (JBool b) = b"
| "truthy (JNum n) = (n \<noteq> 0)"
| "truthy (JStr s) = (s \<noteq> [])"
| "truthy (JArr xs) = True"
| "truthy (JObj kvs) = True"

fun isArray :: "jsval \<Rightarrow> bool" where
  "isArray (JArr xs) = True"
| "isArray v = False"

text \<open>
  The integers that a double holds exactly, and the two operations of \<^verbatim>\<open>add\<close> and
  \<^verbatim>\<open>subtract\<close> on them: the double result is the exact one when operands and result
  are such integers.
\<close>

definition safeInt :: "int \<Rightarrow> bool" where
  "safeInt n = (- (2 ^ 53) \<le> n \<and> n \<le> 2 ^ 53)"

definition plus_num :: "int \<Rightarrow> int \<Rightarrow> stop + int" where
  "plus_num a b = (if safeInt a \<and> safeInt b \<and> safeInt (a + b) then Inr (a + b) else Inl Leave)"

definition minus_num :: "int \<Rightarrow> int \<Rightarrow> stop + int" where
  "minus_num a b = (if safeInt a \<and> safeInt b \<and> safeInt (a - b) then Inr (a - b) else Inl Leave)"

subsection \<open>Dotted keys\<close>

text \<open>
  \<^verbatim>\<open>key.split(".")\<close>: the segments between the dots. The result is never empty: the empty
  key has one segment, the empty string, and a leading, trailing or doubled dot gives an
  empty segment.
\<close>

fun split_dot :: "string \<Rightarrow> string list" where
  "split_dot [] = [[]]"
| "split_dot (c # cs) =
     (if c = CHR ''.'' then [] # split_dot cs
      else (case split_dot cs of [] \<Rightarrow> [[c]] | s # ss \<Rightarrow> (c # s) # ss))"

text \<open>\<^verbatim>\<open>!key || typeof key !== "string"\<close>, for a key that is a string.\<close>

definition invalidKey :: "string \<Rightarrow> bool" where
  "invalidKey key = (key = [])"

subsection \<open>Property access of the runtime\<close>

text \<open>
  An array index is a canonical decimal numeral (no sign, no leading zero) below
  \<open>2^32 - 1\<close>; a string index is a canonical decimal numeral.
\<close>

fun positionIn :: "char \<Rightarrow> string \<Rightarrow> nat \<Rightarrow> nat option" where
  "positionIn c [] n = None"
| "positionIn c (d # ds) n = (if c = d then Some n else positionIn c ds (Suc n))"

definition digitOf :: "char \<Rightarrow> nat option" where
  "digitOf c = positionIn c ''0123456789'' 0"

fun digitsValue :: "nat \<Rightarrow> string \<Rightarrow> nat option" where
  "digitsValue acc [] = Some acc"
| "digitsValue acc (c # cs) =
     (case digitOf c of None \<Rightarrow> None | Some d \<Rightarrow> digitsValue (10 * acc + d) cs)"

definition canonicalIndex :: "string \<Rightarrow> nat option" where
  "canonicalIndex k =
     (case k of
        [] \<Rightarrow> None
      | c # cs \<Rightarrow> if c = CHR ''0'' \<and> cs \<noteq> [] then None else digitsValue 0 k)"

definition arrayIndex :: "string \<Rightarrow> nat option" where
  "arrayIndex k =
     (case canonicalIndex k of
        None \<Rightarrow> None
      | Some i \<Rightarrow> if i < 2 ^ 32 - 1 then Some i else None)"

text \<open>
  \<open>ownProp v k\<close> is the own property \<open>k\<close> of a value other than \<^verbatim>\<open>null\<close>: a property
  of an object, an element or the length of an array, a character or the length of a
  string; \<open>None\<close> when the value has no own property of that name.
\<close>

fun ownProp :: "jsval \<Rightarrow> string \<Rightarrow> jsval option" where
  "ownProp (JObj kvs) k = map_of kvs k"
| "ownProp (JArr xs) k =
     (case arrayIndex k of
        Some i \<Rightarrow> if i < length xs then Some (xs ! i) else None
      | None \<Rightarrow> if k = ''length'' then Some (JNum (int (length xs))) else None)"
| "ownProp (JStr s) k =
     (case canonicalIndex k of
        Some i \<Rightarrow> if i < length s then Some (JStr [s ! i]) else None
      | None \<Rightarrow> if k = ''length'' then Some (JNum (int (length s))) else None)"
| "ownProp v k = None"

text \<open>
  The names of the members of the built-in prototypes: \<^verbatim>\<open>Object.prototype\<close>,
  \<^verbatim>\<open>Array.prototype\<close>, \<^verbatim>\<open>String.prototype\<close>, \<^verbatim>\<open>Number.prototype\<close> and
  \<^verbatim>\<open>Boolean.prototype\<close>, with the legacy members that the runtime of the package
  (Node.js) provides. Every one of them is a function, except \<^verbatim>\<open>__proto__\<close>, which is
  an accessor that reads and sets the prototype of its object. A runtime may lack the
  newest of the names; then the model leaves where that runtime finds nothing.
\<close>

definition objectMembers :: "string list" where
  "objectMembers =
     [''constructor'', ''__defineGetter__'', ''__defineSetter__'', ''hasOwnProperty'',
      ''__lookupGetter__'', ''__lookupSetter__'', ''isPrototypeOf'',
      ''propertyIsEnumerable'', ''toString'', ''valueOf'', ''__proto__'',
      ''toLocaleString'']"

definition arrayMembers :: "string list" where
  "arrayMembers =
     [''at'', ''concat'', ''copyWithin'', ''fill'', ''find'', ''findIndex'', ''findLast'',
      ''findLastIndex'', ''lastIndexOf'', ''pop'', ''push'', ''reverse'', ''shift'',
      ''unshift'', ''slice'', ''sort'', ''splice'', ''includes'', ''indexOf'', ''join'',
      ''keys'', ''entries'', ''values'', ''forEach'', ''filter'', ''flat'', ''flatMap'',
      ''map'', ''every'', ''some'', ''reduce'', ''reduceRight'', ''toReversed'',
      ''toSorted'', ''toSpliced'', ''with'']"

definition stringMembers :: "string list" where
  "stringMembers =
     [''anchor'', ''at'', ''big'', ''blink'', ''bold'', ''charAt'', ''charCodeAt'',
      ''codePointAt'', ''concat'', ''endsWith'', ''fontcolor'', ''fontsize'', ''fixed'',
      ''includes'', ''indexOf'', ''isWellFormed'', ''italics'', ''lastIndexOf'', ''link'',
      ''localeCompare'', ''match'', ''matchAll'', ''normalize'', ''padEnd'', ''padStart'',
      ''repeat'', ''replace'', ''replaceAll'', ''search'', ''slice'', ''small'', ''split'',
      ''strike'', ''sub'', ''substr'', ''substring'', ''sup'', ''startsWith'',
      ''toWellFormed'', ''trim'', ''trimStart'', ''trimLeft'', ''trimEnd'', ''trimRight'',
      ''toLocaleLowerCase'', ''toLocaleUpperCase'', ''toLowerCase'', ''toUpperCase'']"

definition numberMembers :: "string list" where
  "numberMembers = [''toExponential'', ''toFixed'', ''toPrecision'']"

text \<open>
  \<^verbatim>\<open>Boolean.prototype\<close> has \<^verbatim>\<open>constructor\<close>, \<^verbatim>\<open>toString\<close> and \<^verbatim>\<open>valueOf\<close>, names
  that \<^verbatim>\<open>Object.prototype\<close> has too. \<open>protoChain v\<close> lists the names on the prototype
  chain of \<open>v\<close>; \<^verbatim>\<open>null\<close> has none.
\<close>

fun protoChain :: "jsval \<Rightarrow> string list" where
  "protoChain JNull = []"
| "protoChain (JBool b) = objectMembers"
| "protoChain (JNum n) = numberMembers @ objectMembers"
| "protoChain (JStr s) = stringMembers @ objectMembers"
| "protoChain (JArr xs) = arrayMembers @ objectMembers"
| "protoChain (JObj kvs) = objectMembers"

text \<open>
  \<^verbatim>\<open>current[k]\<close>. Reading a property of \<^verbatim>\<open>null\<close> throws a TypeError. An own property
  comes first; a name that is not own but inherited is a member of a built-in prototype,
  and reading it leaves the model; any other name reads \<^verbatim>\<open>undefined\<close>.
\<close>

definition getProp :: "jsval \<Rightarrow> string \<Rightarrow> stop + jsval option" where
  "getProp v k =
     (if v = JNull then Inl (Throw TypeError)
      else (case ownProp v k of
              Some w \<Rightarrow> Inr (Some w)
            | None \<Rightarrow> if k \<in> set (protoChain v) then Inl Leave else Inr None))"

text \<open>
  \<^verbatim>\<open>k in v\<close>: true of an own property and of an inherited member. The source applies it
  only to a value it has tested to be of type object and not \<^verbatim>\<open>null\<close>, so the cases of
  a primitive (where the operator throws) do not arise. \<open>ownKey\<close> is the own part.
\<close>

fun ownKey :: "jsval \<Rightarrow> string \<Rightarrow> bool" where
  "ownKey (JObj kvs) k = (k \<in> set (map fst kvs))"
| "ownKey (JArr xs) k =
     (case arrayIndex k of Some i \<Rightarrow> i < length xs | None \<Rightarrow> k = ''length'')"
| "ownKey v k = False"

definition hasProp :: "jsval \<Rightarrow> string \<Rightarrow> bool" where
  "hasProp v k = (ownKey v k \<or> k \<in> set (protoChain v))"

fun setOwn :: "string \<Rightarrow> jsval \<Rightarrow> (string \<times> jsval) list \<Rightarrow> (string \<times> jsval) list" where
  "setOwn k v [] = [(k, v)]"
| "setOwn k v ((k', w) # kvs) =
     (if k' = k then (k, v) # kvs else (k', w) # setOwn k v kvs)"

text \<open>
  The length a value denotes when it is assigned to the \<^verbatim>\<open>length\<close> of an array
  (\<open>None\<close>: the assignment throws a RangeError). For a string or an array the runtime
  converts the value to a number by parsing its text; that conversion is the parameter
  \<open>rt\<close>.
\<close>

type_synonym runtime = "jsval \<Rightarrow> nat option"

fun toLength :: "runtime \<Rightarrow> jsval \<Rightarrow> nat option" where
  "toLength rt JNull = Some 0"
| "toLength rt (JBool b) = Some (if b then 1 else 0)"
| "toLength rt (JNum n) = (if 0 \<le> n \<and> n < 2 ^ 32 then Some (nat n) else None)"
| "toLength rt (JObj kvs) = None"
| "toLength rt v = rt v"

text \<open>
  \<open>putProp rt cur k v\<close> is \<^verbatim>\<open>cur[k] = v\<close>, given as the value of \<^verbatim>\<open>cur\<close> that
  \<^verbatim>\<open>JSON.stringify\<close> writes afterwards: a hole left in an array by an assignment beyond
  its end is written \<^verbatim>\<open>null\<close>, and a property of an array that is neither an index nor
  the length is not written at all. Assigning to a name that is not own but inherited
  leaves the model (for \<^verbatim>\<open>__proto__\<close> the assignment runs the accessor and creates no
  property). Assigning to a property of a primitive throws (the methods are strict code).
\<close>

fun putProp :: "runtime \<Rightarrow> jsval \<Rightarrow> string \<Rightarrow> jsval \<Rightarrow> stop + jsval" where
  "putProp rt (JObj kvs) k v =
     (if \<not> ownKey (JObj kvs) k \<and> k \<in> set (protoChain (JObj kvs)) then Inl Leave
      else Inr (JObj (setOwn k v kvs)))"
| "putProp rt (JArr xs) k v =
     (case arrayIndex k of
        Some i \<Rightarrow>
          Inr (JArr (if i < length xs then xs[i := v]
                     else xs @ replicate (i - length xs) JNull @ [v]))
      | None \<Rightarrow>
          if k = ''length'' then
            (case toLength rt v of
               None \<Rightarrow> Inl (Throw RangeError)
             | Some n \<Rightarrow> Inr (JArr (take n xs @ replicate (n - length xs) JNull)))
          else if k \<in> set (protoChain (JArr xs)) then Inl Leave
          else Inr (JArr xs))"
| "putProp rt cur k v = Inl (Throw TypeError)"

text \<open>
  The parent \<^verbatim>\<open>cur\<close> after the value it holds at \<open>k\<close> (an object or an array reached by
  \<^verbatim>\<open>current = current[k]\<close>) was changed in place to \<open>child\<close>.
\<close>

fun replaceProp :: "jsval \<Rightarrow> string \<Rightarrow> jsval \<Rightarrow> jsval" where
  "replaceProp (JObj kvs) k child = JObj (setOwn k child kvs)"
| "replaceProp (JArr xs) k child =
     (case arrayIndex k of
        Some i \<Rightarrow> JArr (if i < length xs then xs[i := child] else xs)
      | None \<Rightarrow> JArr xs)"
| "replaceProp cur k child = cur"

text \<open>
  \<^verbatim>\<open>delete cur[k]\<close>, again as written afterwards. Only an own property is deleted, and
  for any other name the statement does nothing. Deleting an element of an array leaves
  a hole, written \<^verbatim>\<open>null\<close>; deleting the length of an array throws in strict code.
\<close>

fun delProp :: "jsval \<Rightarrow> string \<Rightarrow> stop + jsval" where
  "delProp (JObj kvs) k = Inr (JObj (filter (\<lambda>(k', w). k' \<noteq> k) kvs))"
| "delProp (JArr xs) k =
     (case arrayIndex k of
        Some i \<Rightarrow> Inr (JArr (if i < length xs then xs[i := JNull] else xs))
      | None \<Rightarrow> if k = ''length'' then Inl (Throw TypeError) else Inr (JArr xs))"
| "delProp JNull k = Inl (Throw TypeError)"
| "delProp cur k = Inr cur"

text \<open>
  The test \<^verbatim>\<open>!current[k] || typeof current[k] !== "object"\<close> of the resolving loops:
  \<open>stepInto c\<close> is the value the loop steps into when the test is false, and \<open>None\<close> when
  the test is true.
\<close>

fun stepInto :: "jsval option \<Rightarrow> jsval option" where
  "stepInto None = None"
| "stepInto (Some w) = (if \<not> truthy w \<or> \<not> typeofObject w then None else Some w)"

subsection \<open>Equality engine\<close>

text \<open>
  \<^verbatim>\<open>a === b\<close>. Two objects or arrays are identical only when they are the same object;
  a value read from the store is never the same object as the caller's argument, so the
  test is false of them.
\<close>

fun strictEq :: "jsval \<Rightarrow> jsval \<Rightarrow> bool" where
  "strictEq JNull JNull = True"
| "strictEq (JBool a) (JBool b) = (a = b)"
| "strictEq (JNum a) (JNum b) = (a = b)"
| "strictEq (JStr a) (JStr b) = (a = b)"
| "strictEq a b = False"

text \<open>
  \<^verbatim>\<open>deepEqual\<close> (JsonDatabase.ts, 128-150; MongoDatabase.ts, 66-88, the same text).
  For a primitive or \<^verbatim>\<open>null\<close> first argument the tests before the key loop amount to
  \<^verbatim>\<open>===\<close>. For two arrays \<^verbatim>\<open>Object.keys\<close> lists the indices, so after the length test
  the loop compares position by position. For two objects the loop runs over the
  properties of the first and looks each key up in the second. The keys are own keys, so
  no inherited member is read.
\<close>

fun deepEqual :: "jsval \<Rightarrow> jsval \<Rightarrow> bool"
  and deepEqualElems :: "jsval list \<Rightarrow> jsval list \<Rightarrow> bool"
  and deepEqualProps :: "(string \<times> jsval) list \<Rightarrow> (string \<times> jsval) list \<Rightarrow> bool"
where
  "deepEqual (JArr xs) b =
     (case b of
        JArr ys \<Rightarrow> if length xs \<noteq> length ys then False else deepEqualElems xs ys
      | _ \<Rightarrow> False)"
| "deepEqual (JObj kvs) b =
     (case b of
        JObj kvs2 \<Rightarrow> if length kvs \<noteq> length kvs2 then False else deepEqualProps kvs kvs2
      | _ \<Rightarrow> False)"
| "deepEqual JNull b = strictEq JNull b"
| "deepEqual (JBool x) b = strictEq (JBool x) b"
| "deepEqual (JNum x) b = strictEq (JNum x) b"
| "deepEqual (JStr x) b = strictEq (JStr x) b"
| "deepEqualElems [] ys = True"
| "deepEqualElems (x # xs) [] = False"
| "deepEqualElems (x # xs) (y # ys) =
     (if \<not> deepEqual x y then False else deepEqualElems xs ys)"
| "deepEqualProps [] kvs2 = True"
| "deepEqualProps ((key, x) # rest) kvs2 =
     (if key \<notin> set (map fst kvs2) then False
      else (case map_of kvs2 key of
              None \<Rightarrow> False
            | Some y \<Rightarrow> if \<not> deepEqual x y then False else deepEqualProps rest kvs2))"

text \<open>\<^verbatim>\<open>Object.keys\<close>: the own keys of an object, the indices of an array.\<close>

fun showNat :: "nat \<Rightarrow> string" where
  "showNat n =
     (if n < 10 then [''0123456789'' ! n]
      else showNat (n div 10) @ [''0123456789'' ! (n mod 10)])"

fun keysOf :: "jsval \<Rightarrow> string list" where
  "keysOf (JObj kvs) = map fst kvs"
| "keysOf (JArr xs) = map showNat [0..<length xs]"
| "keysOf v = []"

text \<open>
  \<^verbatim>\<open>deepEqual(target[key], y)\<close> where \<open>key\<close> is not an own property of \<open>target\<close> but
  inherited, and \<open>y\<close> is data. A member that is a function differs from \<open>y\<close> in its
  \<^verbatim>\<open>typeof\<close>. \<^verbatim>\<open>target.__proto__\<close> is the prototype of the target,
  \<^verbatim>\<open>Object.prototype\<close> for an object and \<^verbatim>\<open>Array.prototype\<close> (itself an array) for an
  array; it has no enumerable key, so it is deep-equal to the empty object, respectively
  the empty array, and to nothing else.
\<close>

definition inheritedEq :: "jsval \<Rightarrow> string \<Rightarrow> jsval \<Rightarrow> bool" where
  "inheritedEq target key y =
     (key = ''__proto__'' \<and>
        (case target of JObj kvs \<Rightarrow> y = JObj [] | JArr xs \<Rightarrow> y = JArr [] | _ \<Rightarrow> False))"

text \<open>\<^verbatim>\<open>partialMatch\<close> (JsonDatabase.ts, 152-167; MongoDatabase.ts, 90-105).\<close>

definition partialMatch :: "jsval \<Rightarrow> jsval \<Rightarrow> bool" where
  "partialMatch target partial =
     (if \<not> typeofObject target \<or> \<not> typeofObject partial then deepEqual target partial
      else if target = JNull \<or> partial = JNull then False
      else list_all
             (\<lambda>key. hasProp target key \<and>
                (case ownProp partial key of
                   None \<Rightarrow> False
                 | Some y \<Rightarrow>
                     (case ownProp target key of
                        Some x \<Rightarrow> deepEqual x y
                      | None \<Rightarrow> inheritedEq target key y)))
             (keysOf partial))"

text \<open>
  The removal loop of \<^verbatim>\<open>unpush\<close> and \<^verbatim>\<open>pull\<close> (JsonDatabase.ts, 625-645;
  MongoDatabase.ts, 479-496). \<open>pull_loop v arr i rc\<close> is the state before the iteration
  with index \<open>i - 1\<close>: the loop runs from the last index down to 0 and splices a matching
  element out of the array at once.
\<close>

definition shouldRemove :: "jsval \<Rightarrow> jsval \<Rightarrow> bool" where
  "shouldRemove e v =
     (if typeofObject v \<and> v \<noteq> JNull then deepEqual e v \<or> partialMatch e v
      else strictEq e v)"

fun pull_loop :: "jsval \<Rightarrow> jsval list \<Rightarrow> nat \<Rightarrow> nat \<Rightarrow> jsval list \<times> nat" where
  "pull_loop v arr 0 rc = (arr, rc)"
| "pull_loop v arr (Suc i) rc =
     (if i < length arr \<and> shouldRemove (arr ! i) v
      then pull_loop v (take i arr @ drop (Suc i) arr) i (Suc rc)
      else pull_loop v arr i rc)"

subsection \<open>Stores\<close>

text \<open>
  The file backend. \<open>fileData\<close> is the parsed content of the database file: \<open>Some d\<close> when it
  holds the JSON object \<open>d\<close>, \<open>None\<close> when it is missing or does not parse. (A file that
  holds JSON text other than an object is not represented.) \<^verbatim>\<open>ReadDatabase\<close> answers
  \<^verbatim>\<open>{}\<close> in the second case (its \<^verbatim>\<open>catch\<close>); \<^verbatim>\<open>WriteDatabase\<close> overwrites the file.
\<close>

record json_db =
  connected :: bool
  fileData :: "(string \<times> jsval) list option"

definition ReadDatabase :: "json_db \<Rightarrow> (string \<times> jsval) list" where
  "ReadDatabase db = (case fileData db of None \<Rightarrow> [] | Some d \<Rightarrow> d)"

definition WriteDatabase :: "json_db \<Rightarrow> (string \<times> jsval) list \<Rightarrow> json_db" where
  "WriteDatabase db d = db\<lparr>fileData := Some d\<rparr>"

text \<open>
  The remote backend. \<open>records\<close> is the collection: one record \<^verbatim>\<open>{key, value}\<close> per
  top-level key, the key unique. \<open>linked\<close> is \<^verbatim>\<open>this.connected && this.model\<close>.
\<close>

record mongo_db =
  linked :: bool
  records :: "(string \<times> jsval) list"

text \<open>
  The two literal sentences of \<^verbatim>\<open>deleteAll\<close>. The Turkish one has letters beyond
  \<open>char\<close> and is given by its UTF-8 bytes; \<^verbatim>\<open>deleteAll\<close> only compares the sentence
  with its argument, and the encoding keeps different strings different.
\<close>

definition approveTR :: string where
  "approveTR =
     ''T'' @ [CHR 0xC3, CHR 0xBC] @ ''m verilerimin silinece'' @ [CHR 0xC4, CHR 0x9F]
     @ ''ini kabul ediyor ve bu i'' @ [CHR 0xC5, CHR 0x9F] @ ''lemle ilgili t''
     @ [CHR 0xC3, CHR 0xBC] @ ''m sorumlulu'' @ [CHR 0xC4, CHR 0x9F] @ ''un taraf''
     @ [CHR 0xC4, CHR 0xB1] @ ''ma ait oldu'' @ [CHR 0xC4, CHR 0x9F]
     @ ''unu beyan ediyorum.''"

definition approveEN :: string where
  "approveEN =
     ''I acknowledge that all my data will be deleted and declare that I am solely responsible for this process.''"

subsection \<open>JsonDatabase\<close>

text \<open>
  \<^verbatim>\<open>CheckConnection\<close> (JsonDatabase.ts, 120-126): without a connection it warns and
  calls \<^verbatim>\<open>process.exit(0)\<close>; otherwise it returns \<^verbatim>\<open>true\<close>.
\<close>

definition CheckConnection :: "json_db \<Rightarrow> bool proc" where
  "CheckConnection db = (if \<not> connected db then Exit else Return True)"

text \<open>
  The loop that resolves all segments but the last for writing (JsonDatabase.ts, 229-235,
  and the same text at 354-360, 407-413 and 549-555), followed by the method's own
  statements on the last segment, \<open>fin\<close>. The source walks a reference \<^verbatim>\<open>current\<close>
  down the document and changes the objects in place; the model returns the value of
  \<^verbatim>\<open>current\<close> after those changes, together with the warning logged, and each caller
  puts the changed child back at its key. A result whose log is not \<open>Done\<close> is a
  \<^verbatim>\<open>return\<close> of the source before \<^verbatim>\<open>WriteDatabase\<close>. With no segment at all
  \<^verbatim>\<open>keys[keys.length - 1]\<close> is \<^verbatim>\<open>undefined\<close>, the property name \<open>''undefined''\<close>.
\<close>

fun write_resolve ::
  "runtime \<Rightarrow> (jsval \<Rightarrow> string \<Rightarrow> stop + log \<times> jsval) \<Rightarrow> jsval \<Rightarrow> string list
     \<Rightarrow> stop + log \<times> jsval"
where
  "write_resolve rt fin cur [] = fin cur ''undefined''"
| "write_resolve rt fin cur [k] = fin cur k"
| "write_resolve rt fin cur (k # k' # ks) =
     (case getProp cur k of
        Inl e \<Rightarrow> Inl e
      | Inr c \<Rightarrow>
          (case stepInto c of
             Some w \<Rightarrow>
               (case write_resolve rt fin w (k' # ks) of
                  Inl e \<Rightarrow> Inl e
                | Inr (l, child) \<Rightarrow> Inr (l, replaceProp cur k child))
           | None \<Rightarrow>
               (case putProp rt cur k (JObj []) of
                  Inl e \<Rightarrow> Inl e
                | Inr u \<Rightarrow>
                    (case write_resolve rt fin (JObj []) (k' # ks) of
                       Inl e \<Rightarrow> Inl e
                     | Inr (l, child) \<Rightarrow>
                         (case putProp rt cur k child of
                            Inl e \<Rightarrow> Inl e
                          | Inr cur' \<Rightarrow> Inr (l, cur'))))))"

text \<open>
  The loop of \<^verbatim>\<open>delete\<close> and \<^verbatim>\<open>unpush\<close> (JsonDatabase.ts, 456-463 and 605-612): it
  creates nothing and returns with the warning \<open>miss\<close> at the first segment whose value
  is falsy or not of type object.
\<close>

fun read_resolve ::
  "log \<Rightarrow> (jsval \<Rightarrow> string \<Rightarrow> stop + log \<times> jsval) \<Rightarrow> jsval \<Rightarrow> string list
     \<Rightarrow> stop + log \<times> jsval"
where
  "read_resolve miss fin cur [] = fin cur ''undefined''"
| "read_resolve miss fin cur [k] = fin cur k"
| "read_resolve miss fin cur (k # k' # ks) =
     (case getProp cur k of
        Inl e \<Rightarrow> Inl e
      | Inr c \<Rightarrow>
          (case stepInto c of
             None \<Rightarrow> Inr (miss, cur)
           | Some w \<Rightarrow>
               (case read_resolve miss fin w (k' # ks) of
                  Inl e \<Rightarrow> Inl e
                | Inr (l, child) \<Rightarrow> Inr (l, replaceProp cur k child))))"

text \<open>
  The end of a method body: an exception is caught and logged, the document is written
  when the body reached \<^verbatim>\<open>WriteDatabase\<close>, and nothing is written otherwise. The
  document read is an object, and so is the one written.
\<close>

fun commit :: "json_db \<Rightarrow> stop + log \<times> jsval \<Rightarrow> (log \<times> json_db) proc" where
  "commit db (Inl s) = caught s (Failed, db)"
| "commit db (Inr (l, d)) =
     (if l = Done
      then (case d of
              JObj kvs \<Rightarrow> Return (Done, WriteDatabase db kvs)
            | _ \<Rightarrow> Return (Failed, db))
      else Return (l, db))"

text \<open>\<^verbatim>\<open>set\<close> (JsonDatabase.ts, 202-248). A value of the model passes the type test.\<close>

definition set_final :: "runtime \<Rightarrow> jsval \<Rightarrow> jsval \<Rightarrow> string \<Rightarrow> stop + log \<times> jsval" where
  "set_final rt v cur k =
     (case putProp rt cur k v of Inl e \<Rightarrow> Inl e | Inr cur' \<Rightarrow> Inr (Done, cur'))"

definition Json_set ::
  "runtime \<Rightarrow> json_db \<Rightarrow> string \<Rightarrow> jsval option \<Rightarrow> (log \<times> json_db) proc" where
  "Json_set rt db key val =
     (case CheckConnection db of
        Exit \<Rightarrow> Exit
      | Outside \<Rightarrow> Outside
      | Return ok \<Rightarrow>
          if \<not> ok then Return (Done, db)
          else if invalidKey key then Return (InvalidKey, db)
          else (case val of
                  None \<Rightarrow> Return (InvalidValue, db)
                | Some v \<Rightarrow>
                    commit db
                      (write_resolve rt (set_final rt v) (JObj (ReadDatabase db))
                         (split_dot key))))"

text \<open>
  \<^verbatim>\<open>get\<close> (JsonDatabase.ts, 250-281). The loop tests \<^verbatim>\<open>current[k] === undefined\<close> and
  nothing else, so it reads through whatever value \<^verbatim>\<open>current\<close> is.
\<close>

fun get_loop :: "jsval \<Rightarrow> string list \<Rightarrow> stop + jsval option" where
  "get_loop cur [] = Inr (Some cur)"
| "get_loop cur (k # ks) =
     (case getProp cur k of
        Inl e \<Rightarrow> Inl e
      | Inr None \<Rightarrow> Inr None
      | Inr (Some w) \<Rightarrow> get_loop w ks)"

definition Json_get :: "json_db \<Rightarrow> string \<Rightarrow> (log \<times> jsval option) proc" where
  "Json_get db key =
     (case CheckConnection db of
        Exit \<Rightarrow> Exit
      | Outside \<Rightarrow> Outside
      | Return ok \<Rightarrow>
          if \<not> ok then Return (Done, None)
          else if invalidKey key then Return (InvalidKey, None)
          else (case get_loop (JObj (ReadDatabase db)) (split_dot key) of
                  Inl s \<Rightarrow> caught s (Failed, None)
                | Inr None \<Rightarrow> Return (NotFound, None)
                | Inr (Some v) \<Rightarrow> Return (Done, Some v)))"

text \<open>\<^verbatim>\<open>getAll\<close> (JsonDatabase.ts, 283-300).\<close>

definition Json_getAll :: "json_db \<Rightarrow> (string \<times> jsval) list proc" where
  "Json_getAll db =
     (case CheckConnection db of
        Exit \<Rightarrow> Exit
      | Outside \<Rightarrow> Outside
      | Return ok \<Rightarrow> if \<not> ok then Return [] else Return (ReadDatabase db))"

text \<open>
  \<^verbatim>\<open>has\<close> (JsonDatabase.ts, 302-335). After \<^verbatim>\<open>k in current\<close> the loop reads
  \<^verbatim>\<open>current[k]\<close>; a value read as \<^verbatim>\<open>undefined\<close> ends the next iteration with
  \<^verbatim>\<open>false\<close>, and the loop with \<^verbatim>\<open>true\<close> when there is no next iteration.
\<close>

fun has_loop :: "jsval \<Rightarrow> string list \<Rightarrow> stop + bool" where
  "has_loop cur [] = Inr True"
| "has_loop cur (k # ks) =
     (if cur = JNull \<or> \<not> typeofObject cur then Inr False
      else if \<not> hasProp cur k then Inr False
      else (case getProp cur k of
              Inl s \<Rightarrow> Inl s
            | Inr None \<Rightarrow> Inr (ks = [])
            | Inr (Some w) \<Rightarrow> has_loop w ks))"

definition Json_has :: "json_db \<Rightarrow> string \<Rightarrow> (log \<times> bool) proc" where
  "Json_has db key =
     (case CheckConnection db of
        Exit \<Rightarrow> Exit
      | Outside \<Rightarrow> Outside
      | Return ok \<Rightarrow>
          if \<not> ok then Return (Done, False)
          else if invalidKey key then Return (InvalidKey, False)
          else (case has_loop (JObj (ReadDatabase db)) (split_dot key) of
                  Inl s \<Rightarrow> caught s (Failed, False)
                | Inr b \<Rightarrow> Return (Done, b)))"

text \<open>
  \<^verbatim>\<open>add\<close> and \<^verbatim>\<open>subtract\<close> (JsonDatabase.ts, 337-388 and 390-441). The argument is
  tested to be a number.
\<close>

definition add_final :: "runtime \<Rightarrow> int \<Rightarrow> jsval \<Rightarrow> string \<Rightarrow> stop + log \<times> jsval" where
  "add_final rt n cur k =
     (case getProp cur k of
        Inl e \<Rightarrow> Inl e
      | Inr None \<Rightarrow>
          (case plus_num 0 n of Inl e \<Rightarrow> Inl e | Inr r \<Rightarrow> set_final rt (JNum r) cur k)
      | Inr (Some currentValue) \<Rightarrow>
          (case currentValue of
             JNum m \<Rightarrow>
               (case plus_num m n of Inl e \<Rightarrow> Inl e | Inr r \<Rightarrow> set_final rt (JNum r) cur k)
           | _ \<Rightarrow> Inr (NotANumber, cur)))"

definition subtract_final :: "runtime \<Rightarrow> int \<Rightarrow> jsval \<Rightarrow> string \<Rightarrow> stop + log \<times> jsval" where
  "subtract_final rt n cur k =
     (case getProp cur k of
        Inl e \<Rightarrow> Inl e
      | Inr None \<Rightarrow>
          (case minus_num 0 n of Inl e \<Rightarrow> Inl e | Inr r \<Rightarrow> set_final rt (JNum r) cur k)
      | Inr (Some currentValue) \<Rightarrow>
          (case currentValue of
             JNum m \<Rightarrow>
               (case minus_num m n of Inl e \<Rightarrow> Inl e | Inr r \<Rightarrow> set_final rt (JNum r) cur k)
           | _ \<Rightarrow> Inr (NotANumber, cur)))"

definition Json_add ::
  "runtime \<Rightarrow> json_db \<Rightarrow> string \<Rightarrow> jsval option \<Rightarrow> (log \<times> json_db) proc" where
  "Json_add rt db key val =
     (case CheckConnection db of
        Exit \<Rightarrow> Exit
      | Outside \<Rightarrow> Outside
      | Return ok \<Rightarrow>
          if \<not> ok then Return (Done, db)
          else if invalidKey key then Return (InvalidKey, db)
          else (case val of
                  Some (JNum n) \<Rightarrow>
                    commit db
                      (write_resolve rt (add_final rt n) (JObj (ReadDatabase db))
                         (split_dot key))
                | _ \<Rightarrow> Return (InvalidValue, db)))"

definition Json_subtract ::
  "runtime \<Rightarrow> json_db \<Rightarrow> string \<Rightarrow> jsval option \<Rightarrow> (log \<times> json_db) proc" where
  "Json_subtract rt db key val =
     (case CheckConnection db of
        Exit \<Rightarrow> Exit
      | Outside \<Rightarrow> Outside
      | Return ok \<Rightarrow>
          if \<not> ok then Return (Done, db)
          else if invalidKey key then Return (InvalidKey, db)
          else (case val of
                  Some (JNum n) \<Rightarrow>
                    commit db
                      (write_resolve rt (subtract_final rt n) (JObj (ReadDatabase db))
                         (split_dot key))
                | _ \<Rightarrow> Return (InvalidValue, db)))"

text \<open>
  \<^verbatim>\<open>delete\<close> (JsonDatabase.ts, 443-482). \<^verbatim>\<open>finalKey in current\<close> is true of an
  inherited member too; \<^verbatim>\<open>delete\<close> then removes nothing and the document is written
  as it was read.
\<close>

definition delete_final :: "jsval \<Rightarrow> string \<Rightarrow> stop + log \<times> jsval" where
  "delete_final cur k =
     (if hasProp cur k
      then (case delProp cur k of Inl e \<Rightarrow> Inl e | Inr cur' \<Rightarrow> Inr (Done, cur'))
      else Inr (DoesNotExist, cur))"

definition Json_delete :: "json_db \<Rightarrow> string \<Rightarrow> (log \<times> json_db) proc" where
  "Json_delete db key =
     (case CheckConnection db of
        Exit \<Rightarrow> Exit
      | Outside \<Rightarrow> Outside
      | Return ok \<Rightarrow>
          if \<not> ok then Return (Done, db)
          else if invalidKey key then Return (InvalidKey, db)
          else commit db
                 (read_resolve DoesNotExist delete_final (JObj (ReadDatabase db))
                    (split_dot key)))"

text \<open>
  \<^verbatim>\<open>push\<close> (JsonDatabase.ts, 521-575). When the last segment is the length of an array,
  \<^verbatim>\<open>current[finalKey] = []\<close> sets that length and the call of \<^verbatim>\<open>push\<close> on the number
  read back throws; in every other case \<^verbatim>\<open>current[finalKey]\<close> reads the array just
  assigned.
\<close>

definition push_final :: "runtime \<Rightarrow> jsval \<Rightarrow> jsval \<Rightarrow> string \<Rightarrow> stop + log \<times> jsval" where
  "push_final rt v cur k =
     (case getProp cur k of
        Inl e \<Rightarrow> Inl e
      | Inr c \<Rightarrow>
          (case c of
             Some (JArr ys) \<Rightarrow> Inr (Done, replaceProp cur k (JArr (ys @ [v])))
           | _ \<Rightarrow>
               if isArray cur \<and> k = ''length'' then Inl (Throw TypeError)
               else set_final rt (JArr [v]) cur k))"

definition Json_push ::
  "runtime \<Rightarrow> json_db \<Rightarrow> string \<Rightarrow> jsval option \<Rightarrow> (log \<times> json_db) proc" where
  "Json_push rt db key val =
     (case CheckConnection db of
        Exit \<Rightarrow> Exit
      | Outside \<Rightarrow> Outside
      | Return ok \<Rightarrow>
          if \<not> ok then Return (Done, db)
          else if invalidKey key then Return (InvalidKey, db)
          else (case val of
                  None \<Rightarrow> Return (InvalidValue, db)
                | Some v \<Rightarrow>
                    commit db
                      (write_resolve rt (push_final rt v) (JObj (ReadDatabase db))
                         (split_dot key))))"

text \<open>\<^verbatim>\<open>unpush\<close> (JsonDatabase.ts, 577-664).\<close>

definition unpush_final :: "jsval \<Rightarrow> jsval \<Rightarrow> string \<Rightarrow> stop + log \<times> jsval" where
  "unpush_final v cur k =
     (case getProp cur k of
        Inl e \<Rightarrow> Inl e
      | Inr c \<Rightarrow>
          (case c of
             Some (JArr array) \<Rightarrow>
               (case pull_loop v array (length array) 0 of
                  (array', removedCount) \<Rightarrow>
                    if removedCount > 0 then Inr (Done, replaceProp cur k (JArr array'))
                    else Inr (NoMatch, cur))
           | _ \<Rightarrow> Inr (NotAnArray, cur)))"

definition Json_unpush :: "json_db \<Rightarrow> string \<Rightarrow> jsval option \<Rightarrow> (log \<times> json_db) proc" where
  "Json_unpush db key val =
     (case CheckConnection db of
        Exit \<Rightarrow> Exit
      | Outside \<Rightarrow> Outside
      | Return ok \<Rightarrow>
          if \<not> ok then Return (Done, db)
          else if invalidKey key then Return (InvalidKey, db)
          else (case val of
                  None \<Rightarrow> Return (InvalidValue, db)
                | Some v \<Rightarrow>
                    commit db
                      (read_resolve PathMissing (unpush_final v) (JObj (ReadDatabase db))
                         (split_dot key))))"

text \<open>
  \<^verbatim>\<open>deleteAll\<close> (JsonDatabase.ts, 484-519): every own key of the document read is
  deleted and the emptied document is written.
\<close>

definition Json_deleteAll :: "json_db \<Rightarrow> string \<Rightarrow> (log \<times> json_db) proc" where
  "Json_deleteAll db approve =
     (case CheckConnection db of
        Exit \<Rightarrow> Exit
      | Outside \<Rightarrow> Outside
      | Return ok \<Rightarrow>
          if \<not> ok then Return (Done, db)
          else if approve \<noteq> approveTR \<and> approve \<noteq> approveEN then Return (InvalidApproval, db)
          else
            let data = ReadDatabase db;
                data = filter (\<lambda>(key, v). key \<notin> set (map fst data)) data
            in Return (Done, WriteDatabase db data))"

subsection \<open>MongoDatabase\<close>

text \<open>\<^verbatim>\<open>checkConnection\<close> (MongoDatabase.ts, 58-64).\<close>

definition checkConnection :: "mongo_db \<Rightarrow> bool proc" where
  "checkConnection db = (if \<not> linked db then Exit else Return True)"

text \<open>
  The storage library (mongoose), which is not part of the repository, with the schema of
  MongoDatabase.ts, 9-12. \<^verbatim>\<open>findOne({ key })\<close> loads the record of a top-level key.

  \<^verbatim>\<open>save\<close> of a new document validates it and inserts a record. The schema declares
  \<^verbatim>\<open>key\<close> and \<^verbatim>\<open>value\<close> required, so a new document whose key is the empty string, or
  whose value is \<^verbatim>\<open>null\<close> or \<^verbatim>\<open>undefined\<close>, fails validation and \<^verbatim>\<open>save\<close> throws.

  \<^verbatim>\<open>save\<close> of a loaded document writes the paths that the library has marked as
  modified. \<^verbatim>\<open>value\<close> is of the schema type Mixed: the library hands out the stored
  value itself, does not see a change made inside it, and compares a value assigned to
  \<^verbatim>\<open>document.value\<close> with the one the document holds. So when the value assigned is
  the one the document holds (\<open>same\<close>), changed in place or not, nothing is marked and
  \<^verbatim>\<open>save\<close> writes nothing.

  With the schema's default options the library leaves empty objects out of what it
  writes; the model leaves at a \<^verbatim>\<open>save\<close> that would write a value holding an empty
  object.
\<close>

fun hasEmptyObject :: "jsval \<Rightarrow> bool"
  and hasEmptyObjectIn :: "jsval list \<Rightarrow> bool"
  and hasEmptyObjectAt :: "(string \<times> jsval) list \<Rightarrow> bool"
where
  "hasEmptyObject (JObj kvs) = (kvs = [] \<or> hasEmptyObjectAt kvs)"
| "hasEmptyObject (JArr xs) = hasEmptyObjectIn xs"
| "hasEmptyObject JNull = False"
| "hasEmptyObject (JBool b) = False"
| "hasEmptyObject (JNum n) = False"
| "hasEmptyObject (JStr s) = False"
| "hasEmptyObjectIn [] = False"
| "hasEmptyObjectIn (x # xs) = (hasEmptyObject x \<or> hasEmptyObjectIn xs)"
| "hasEmptyObjectAt [] = False"
| "hasEmptyObjectAt ((k, x) # kvs) = (hasEmptyObject x \<or> hasEmptyObjectAt kvs)"

definition findOne :: "mongo_db \<Rightarrow> string \<Rightarrow> jsval option" where
  "findOne db k = map_of (records db) k"

definition save_new :: "mongo_db \<Rightarrow> string \<Rightarrow> jsval option \<Rightarrow> stop + mongo_db" where
  "save_new db k val =
     (case val of
        None \<Rightarrow> Inl (Throw ValidationError)
      | Some v \<Rightarrow>
          if k = [] \<or> v = JNull then Inl (Throw ValidationError)
          else if hasEmptyObject v then Inl Leave
          else Inr (db\<lparr>records := records db @ [(k, v)]\<rparr>))"

definition save_loaded :: "mongo_db \<Rightarrow> string \<Rightarrow> bool \<Rightarrow> jsval \<Rightarrow> stop + mongo_db" where
  "save_loaded db k same v =
     (if same then Inr db
      else if hasEmptyObject v then Inl Leave
      else Inr (db\<lparr>records := setOwn k v (records db)\<rparr>))"

text \<open>
  \<^verbatim>\<open>setNestedValue\<close> (MongoDatabase.ts, 107-119), with the object it returns given as
  written afterwards. With no segment the recursion does not end and the call stack
  overflows, a RangeError.
\<close>

fun setNestedValue :: "runtime \<Rightarrow> jsval \<Rightarrow> string list \<Rightarrow> jsval \<Rightarrow> stop + jsval" where
  "setNestedValue rt obj [] v = Inl (Throw RangeError)"
| "setNestedValue rt obj [k] v = putProp rt obj k v"
| "setNestedValue rt obj (first # k' # ks) v =
     (case getProp obj first of
        Inl e \<Rightarrow> Inl e
      | Inr c \<Rightarrow>
          (case stepInto c of
             Some w \<Rightarrow>
               (case setNestedValue rt w (k' # ks) v of
                  Inl e \<Rightarrow> Inl e
                | Inr child \<Rightarrow> Inr (replaceProp obj first child))
           | None \<Rightarrow>
               (case putProp rt obj first (JObj []) of
                  Inl e \<Rightarrow> Inl e
                | Inr u \<Rightarrow>
                    (case setNestedValue rt (JObj []) (k' # ks) v of
                       Inl e \<Rightarrow> Inl e
                     | Inr child \<Rightarrow> putProp rt obj first child))))"

text \<open>
  \<^verbatim>\<open>getNestedValue\<close> (MongoDatabase.ts, 121-130). A value read as \<^verbatim>\<open>undefined\<close>
  makes the function return \<^verbatim>\<open>undefined\<close>, at the next iteration or at the end.
\<close>

fun getNestedValue :: "jsval \<Rightarrow> string list \<Rightarrow> stop + jsval option" where
  "getNestedValue cur [] = Inr (Some cur)"
| "getNestedValue cur (key # ks) =
     (if cur = JNull \<or> \<not> typeofObject cur \<or> \<not> hasProp cur key then Inr None
      else (case getProp cur key of
              Inl s \<Rightarrow> Inl s
            | Inr None \<Rightarrow> Inr None
            | Inr (Some w) \<Rightarrow> getNestedValue w ks))"

text \<open>\<^verbatim>\<open>keys[0]\<close>; \<^verbatim>\<open>split\<close> always gives a first segment.\<close>

fun firstKey :: "string list \<Rightarrow> string" where
  "firstKey [] = ''undefined''"
| "firstKey (k # ks) = k"

text \<open>
  \<^verbatim>\<open>set\<close> (MongoDatabase.ts, 132-170). For a loaded document the method takes
  \<^verbatim>\<open>updatedValue = document.value || {}\<close>, builds the temporary object
  \<^verbatim>\<open>{ [keys[0]]: updatedValue }\<close>, runs \<^verbatim>\<open>setNestedValue\<close> on it and then assigns
  \<^verbatim>\<open>updatedValue\<close>, not the property of the temporary object, to \<^verbatim>\<open>document.value\<close>.
  \<^verbatim>\<open>updatedValue\<close> shows the changes that \<^verbatim>\<open>setNestedValue\<close> made through the
  temporary object's property only: that is the case when the path has a second segment
  and \<^verbatim>\<open>updatedValue\<close> is of type object, so that the recursion steps into it
  (\<open>steppedInto\<close>). When the path has one segment, or \<^verbatim>\<open>updatedValue\<close> is a primitive,
  \<^verbatim>\<open>setNestedValue\<close> assigns a new value to the property of the temporary object and
  \<^verbatim>\<open>updatedValue\<close> itself stays as it was. \<^verbatim>\<open>updatedValue\<close> is the value the document
  holds exactly when that value is truthy.
\<close>

fun steppedInto :: "string list \<Rightarrow> jsval \<Rightarrow> bool" where
  "steppedInto (first # k' # ks) updatedValue = (stepInto (Some updatedValue) \<noteq> None)"
| "steppedInto keys updatedValue = False"

definition Mongo_set ::
  "runtime \<Rightarrow> mongo_db \<Rightarrow> string \<Rightarrow> jsval option \<Rightarrow> (log \<times> mongo_db) proc" where
  "Mongo_set rt db key val =
     (case checkConnection db of
        Exit \<Rightarrow> Exit
      | Outside \<Rightarrow> Outside
      | Return ok \<Rightarrow>
          if \<not> ok then Return (Done, db)
          else if invalidKey key then Return (InvalidKey, db)
          else (case val of
                  None \<Rightarrow> Return (InvalidValue, db)
                | Some v \<Rightarrow>
                    let keys = split_dot key in
                    (case findOne db (firstKey keys) of
                       None \<Rightarrow>
                         (case setNestedValue rt (JObj []) keys v of
                            Inl s \<Rightarrow> caught s (Failed, db)
                          | Inr newValue \<Rightarrow>
                              (case save_new db (firstKey keys)
                                      (ownProp newValue (firstKey keys)) of
                                 Inl s \<Rightarrow> caught s (Failed, db)
                               | Inr db' \<Rightarrow> Return (Done, db')))
                     | Some old \<Rightarrow>
                         let updatedValue = (if truthy old then old else JObj []) in
                         (case setNestedValue rt (JObj [(firstKey keys, updatedValue)]) keys v of
                            Inl s \<Rightarrow> caught s (Failed, db)
                          | Inr tmp \<Rightarrow>
                              (case save_loaded db (firstKey keys) (truthy old)
                                      (if steppedInto keys updatedValue
                                       then (case ownProp tmp (firstKey keys) of
                                               Some u \<Rightarrow> u
                                             | None \<Rightarrow> updatedValue)
                                       else updatedValue) of
                                 Inl s \<Rightarrow> caught s (Failed, db)
                               | Inr db' \<Rightarrow> Return (Done, db'))))))"

text \<open>\<^verbatim>\<open>get\<close> (MongoDatabase.ts, 172-209).\<close>

definition Mongo_get :: "mongo_db \<Rightarrow> string \<Rightarrow> (log \<times> jsval option) proc" where
  "Mongo_get db key =
     (case checkConnection db of
        Exit \<Rightarrow> Exit
      | Outside \<Rightarrow> Outside
      | Return ok \<Rightarrow>
          if \<not> ok then Return (Done, None)
          else if invalidKey key then Return (InvalidKey, None)
          else
            let keys = split_dot key in
            (case findOne db (firstKey keys) of
               None \<Rightarrow> Return (NotFound, None)
             | Some dv \<Rightarrow>
                 (case getNestedValue (JObj [(firstKey keys, dv)]) keys of
                    Inl s \<Rightarrow> caught s (Failed, None)
                  | Inr None \<Rightarrow> Return (NotFound, None)
                  | Inr (Some v) \<Rightarrow> Return (Done, Some v))))"

text \<open>
  \<^verbatim>\<open>getAll\<close> (MongoDatabase.ts, 211-235): the loop assigns every record to a property
  of a fresh object.
\<close>

fun collect :: "(string \<times> jsval) list \<Rightarrow> jsval \<Rightarrow> stop + jsval" where
  "collect [] result = Inr result"
| "collect ((k, v) # docs) result =
     (case putProp (\<lambda>x. None) result k v of
        Inl s \<Rightarrow> Inl s
      | Inr result' \<Rightarrow> collect docs result')"

definition Mongo_getAll :: "mongo_db \<Rightarrow> (string \<times> jsval) list proc" where
  "Mongo_getAll db =
     (case checkConnection db of
        Exit \<Rightarrow> Exit
      | Outside \<Rightarrow> Outside
      | Return ok \<Rightarrow>
          if \<not> ok then Return []
          else (case collect (records db) (JObj []) of
                  Inl s \<Rightarrow> caught s []
                | Inr result \<Rightarrow> Return (case result of JObj kvs \<Rightarrow> kvs | _ \<Rightarrow> [])))"

text \<open>\<^verbatim>\<open>has\<close> (MongoDatabase.ts, 237-261).\<close>

definition Mongo_has :: "mongo_db \<Rightarrow> string \<Rightarrow> (log \<times> bool) proc" where
  "Mongo_has db key =
     (case checkConnection db of
        Exit \<Rightarrow> Exit
      | Outside \<Rightarrow> Outside
      | Return ok \<Rightarrow>
          if \<not> ok then Return (Done, False)
          else if invalidKey key then Return (InvalidKey, False)
          else
            let keys = split_dot key in
            (case findOne db (firstKey keys) of
               None \<Rightarrow> Return (Done, False)
             | Some dv \<Rightarrow>
                 (case getNestedValue (JObj [(firstKey keys, dv)]) keys of
                    Inl s \<Rightarrow> caught s (Failed, False)
                  | Inr value \<Rightarrow> Return (Done, value \<noteq> None))))"

text \<open>
  \<^verbatim>\<open>add\<close> and \<^verbatim>\<open>subtract\<close> (MongoDatabase.ts, 263-299 and 301-337): the current value
  is read with \<^verbatim>\<open>this.get\<close> and the result stored with \<^verbatim>\<open>this.set\<close>.
\<close>

definition Mongo_add ::
  "runtime \<Rightarrow> mongo_db \<Rightarrow> string \<Rightarrow> jsval option \<Rightarrow> (log \<times> mongo_db) proc" where
  "Mongo_add rt db key val =
     (case checkConnection db of
        Exit \<Rightarrow> Exit
      | Outside \<Rightarrow> Outside
      | Return ok \<Rightarrow>
          if \<not> ok then Return (Done, db)
          else if invalidKey key then Return (InvalidKey, db)
          else (case val of
                  Some (JNum n) \<Rightarrow>
                    (case Mongo_get db key of
                       Exit \<Rightarrow> Exit
                     | Outside \<Rightarrow> Outside
                     | Return (l, None) \<Rightarrow> Mongo_set rt db key (Some (JNum n))
                     | Return (l, Some currentValue) \<Rightarrow>
                         (case currentValue of
                            JNum m \<Rightarrow>
                              (case plus_num m n of
                                 Inl s \<Rightarrow> caught s (Failed, db)
                               | Inr r \<Rightarrow> Mongo_set rt db key (Some (JNum r)))
                          | _ \<Rightarrow> Return (NotANumber, db)))
                | _ \<Rightarrow> Return (InvalidValue, db)))"

definition Mongo_subtract ::
  "runtime \<Rightarrow> mongo_db \<Rightarrow> string \<Rightarrow> jsval option \<Rightarrow> (log \<times> mongo_db) proc" where
  "Mongo_subtract rt db key val =
     (case checkConnection db of
        Exit \<Rightarrow> Exit
      | Outside \<Rightarrow> Outside
      | Return ok \<Rightarrow>
          if \<not> ok then Return (Done, db)
          else if invalidKey key then Return (InvalidKey, db)
          else (case val of
                  Some (JNum n) \<Rightarrow>
                    (case Mongo_get db key of
                       Exit \<Rightarrow> Exit
                     | Outside \<Rightarrow> Outside
                     | Return (l, None) \<Rightarrow> Mongo_set rt db key (Some (JNum (- n)))
                     | Return (l, Some currentValue) \<Rightarrow>
                         (case currentValue of
                            JNum m \<Rightarrow>
                              (case minus_num m n of
                                 Inl s \<Rightarrow> caught s (Failed, db)
                               | Inr r \<Rightarrow> Mongo_set rt db key (Some (JNum r)))
                          | _ \<Rightarrow> Return (NotANumber, db)))
                | _ \<Rightarrow> Return (InvalidValue, db)))"

text \<open>
  \<^verbatim>\<open>delete\<close> (MongoDatabase.ts, 339-390). A one-segment key removes the record. For a
  longer key \<^verbatim>\<open>parent\<close> is a value inside \<^verbatim>\<open>document.value\<close>;
  \<^verbatim>\<open>delete parent[finalKey]\<close> changes it in place, and \<^verbatim>\<open>document.value\<close> is then
  assigned the value it holds.
\<close>

definition Mongo_delete :: "mongo_db \<Rightarrow> string \<Rightarrow> (log \<times> mongo_db) proc" where
  "Mongo_delete db key =
     (case checkConnection db of
        Exit \<Rightarrow> Exit
      | Outside \<Rightarrow> Outside
      | Return ok \<Rightarrow>
          if \<not> ok then Return (Done, db)
          else if invalidKey key then Return (InvalidKey, db)
          else
            let keys = split_dot key in
            if length keys = 1 then
              (if firstKey keys \<in> set (map fst (records db))
               then Return (Done,
                      db\<lparr>records := filter (\<lambda>(k, v). k \<noteq> firstKey keys) (records db)\<rparr>)
               else Return (DoesNotExist, db))
            else
              (case findOne db (firstKey keys) of
                 None \<Rightarrow> Return (DoesNotExist, db)
               | Some dv \<Rightarrow>
                   let obj = JObj [(firstKey keys, dv)];
                       parentPath = butlast keys;
                       finalKey = last keys
                   in (case getNestedValue obj parentPath of
                         Inl s \<Rightarrow> caught s (Failed, db)
                       | Inr None \<Rightarrow> Return (DoesNotExist, db)
                       | Inr (Some parent) \<Rightarrow>
                           if truthy parent \<and> typeofObject parent \<and> hasProp parent finalKey
                           then (case delProp parent finalKey of
                                   Inl s \<Rightarrow> caught s (Failed, db)
                                 | Inr parent' \<Rightarrow>
                                     (case save_loaded db (firstKey keys) True dv of
                                        Inl s \<Rightarrow> caught s (Failed, db)
                                      | Inr db' \<Rightarrow> Return (Done, db')))
                           else Return (DoesNotExist, db))))"

text \<open>\<^verbatim>\<open>push\<close> (MongoDatabase.ts, 423-455).\<close>

definition Mongo_push ::
  "runtime \<Rightarrow> mongo_db \<Rightarrow> string \<Rightarrow> jsval option \<Rightarrow> (log \<times> mongo_db) proc" where
  "Mongo_push rt db key val =
     (case checkConnection db of
        Exit \<Rightarrow> Exit
      | Outside \<Rightarrow> Outside
      | Return ok \<Rightarrow>
          if \<not> ok then Return (Done, db)
          else if invalidKey key then Return (InvalidKey, db)
          else (case val of
                  None \<Rightarrow> Return (InvalidValue, db)
                | Some v \<Rightarrow>
                    (case Mongo_get db key of
                       Exit \<Rightarrow> Exit
                     | Outside \<Rightarrow> Outside
                     | Return (l, currentValue) \<Rightarrow>
                         (case currentValue of
                            Some (JArr ys) \<Rightarrow> Mongo_set rt db key (Some (JArr (ys @ [v])))
                          | _ \<Rightarrow> Mongo_set rt db key (Some (JArr [v]))))))"

text \<open>\<^verbatim>\<open>pull\<close> (MongoDatabase.ts, 457-513).\<close>

definition Mongo_pull ::
  "runtime \<Rightarrow> mongo_db \<Rightarrow> string \<Rightarrow> jsval option \<Rightarrow> (log \<times> mongo_db) proc" where
  "Mongo_pull rt db key val =
     (case checkConnection db of
        Exit \<Rightarrow> Exit
      | Outside \<Rightarrow> Outside
      | Return ok \<Rightarrow>
          if \<not> ok then Return (Done, db)
          else if invalidKey key then Return (InvalidKey, db)
          else (case val of
                  None \<Rightarrow> Return (InvalidValue, db)
                | Some v \<Rightarrow>
                    (case Mongo_get db key of
                       Exit \<Rightarrow> Exit
                     | Outside \<Rightarrow> Outside
                     | Return (l, currentValue) \<Rightarrow>
                         (case currentValue of
                            Some (JArr array) \<Rightarrow>
                              (case pull_loop v array (length array) 0 of
                                 (array', removedCount) \<Rightarrow>
                                   if removedCount > 0
                                   then Mongo_set rt db key (Some (JArr array'))
                                   else Return (NoMatch, db))
                          | _ \<Rightarrow> Return (NotAnArray, db)))))"

text \<open>\<^verbatim>\<open>deleteAll\<close> (MongoDatabase.ts, 392-421): \<^verbatim>\<open>deleteMany({})\<close> removes every record.\<close>

definition Mongo_deleteAll :: "mongo_db \<Rightarrow> string \<Rightarrow> (log \<times> mongo_db) proc" where
  "Mongo_deleteAll db approve =
     (case checkConnection db of
        Exit \<Rightarrow> Exit
      | Outside \<Rightarrow> Outside
      | Return ok \<Rightarrow>
          if \<not> ok then Return (Done, db)
          else if approve \<noteq> approveTR \<and> approve \<noteq> approveEN then Return (InvalidApproval, db)
          else Return (Done, db\<lparr>records := []\<rparr>))"

section \<open>Properties\<close>

lemmas json_method_defs =
  Json_set_def Json_get_def Json_getAll_def Json_has_def Json_add_def Json_subtract_def
  Json_delete_def Json_push_def Json_unpush_def Json_deleteAll_def

lemmas mongo_method_defs =
  Mongo_set_def Mongo_get_def Mongo_getAll_def Mongo_has_def Mongo_add_def Mongo_subtract_def
  Mongo_delete_def Mongo_push_def Mongo_pull_def Mongo_deleteAll_def

lemmas member_defs =
  objectMembers_def arrayMembers_def stringMembers_def numberMembers_def

lemmas eval_defs =
  CheckConnection_def checkConnection_def invalidKey_def ReadDatabase_def WriteDatabase_def
  getProp_def hasProp_def arrayIndex_def canonicalIndex_def digitOf_def set_final_def
  add_final_def subtract_final_def delete_final_def push_final_def unpush_final_def
  findOne_def save_new_def save_loaded_def shouldRemove_def partialMatch_def inheritedEq_def
  plus_num_def minus_num_def safeInt_def member_defs

subsection \<open>deleteAll and its approval sentence\<close>

lemma approve_distinct: "approveTR \<noteq> approveEN"
  by (simp add: approveTR_def approveEN_def)

lemma delete_own_keys:
  "filter (\<lambda>(key, v). key \<notin> fst ` set d) d = []"
  by (auto simp: filter_empty_conv intro: rev_image_eqI)

text \<open>
  Claim C7. On a connected store, \<^verbatim>\<open>deleteAll(approve)\<close> erases every top-level record
  when \<^verbatim>\<open>approve\<close> is one of the two literal sentences, in the file backend and in the
  remote backend alike; for every other string it logs the invalid approval and leaves
  the stored document as it was.
\<close>

theorem deleteAll_approval:
  "connected jdb \<Longrightarrow> linked mdb \<Longrightarrow>
   Json_deleteAll jdb approve =
     (if approve = approveTR \<or> approve = approveEN
      then Return (Done, jdb\<lparr>fileData := Some []\<rparr>)
      else Return (InvalidApproval, jdb))
   \<and> Mongo_deleteAll mdb approve =
     (if approve = approveTR \<or> approve = approveEN
      then Return (Done, mdb\<lparr>records := []\<rparr>)
      else Return (InvalidApproval, mdb))"
  by (auto simp: Json_deleteAll_def Mongo_deleteAll_def CheckConnection_def
      checkConnection_def WriteDatabase_def Let_def delete_own_keys)

theorem deleteAll_approval_witness:
  "Json_deleteAll \<lparr>connected = True, fileData = Some [(''a'', JNum 1)]\<rparr> approveEN
     = Return (Done, \<lparr>connected = True, fileData = Some []\<rparr>)
   \<and> Mongo_deleteAll \<lparr>linked = True, records = [(''a'', JNum 1)]\<rparr> approveTR
     = Return (Done, \<lparr>linked = True, records = []\<rparr>)
   \<and> Json_deleteAll \<lparr>connected = True, fileData = Some [(''a'', JNum 1)]\<rparr> ''yes''
     = Return (InvalidApproval, \<lparr>connected = True, fileData = Some [(''a'', JNum 1)]\<rparr>)
   \<and> Mongo_deleteAll \<lparr>linked = True, records = [(''a'', JNum 1)]\<rparr> ''yes''
     = Return (InvalidApproval, \<lparr>linked = True, records = [(''a'', JNum 1)]\<rparr>)"
  using deleteAll_approval [of "\<lparr>connected = True, fileData = Some [(''a'', JNum 1)]\<rparr>"
          "\<lparr>linked = True, records = [(''a'', JNum 1)]\<rparr>" approveEN]
        deleteAll_approval [of "\<lparr>connected = True, fileData = Some [(''a'', JNum 1)]\<rparr>"
          "\<lparr>linked = True, records = [(''a'', JNum 1)]\<rparr>" approveTR]
        deleteAll_approval [of "\<lparr>connected = True, fileData = Some [(''a'', JNum 1)]\<rparr>"
          "\<lparr>linked = True, records = [(''a'', JNum 1)]\<rparr>" "''yes''"]
  by (simp add: approveEN_def approveTR_def)

subsection \<open>Operations before connect\<close>

text \<open>
  Claim C8 says that the file backend recreates its file and proceeds when a method is
  called before \<^verbatim>\<open>connect()\<close>. It does not: \<^verbatim>\<open>CheckConnection\<close> of the file backend
  ends the process, whether or not the file exists.
\<close>

theorem unconnected_file_backend_exits:
  "Json_set (\<lambda>v. None) \<lparr>connected = False, fileData = None\<rparr> ''a'' (Some (JNum 1)) = Exit
   \<and> Json_get \<lparr>connected = False, fileData = None\<rparr> ''a'' = Exit"
  by (simp add: Json_set_def Json_get_def CheckConnection_def)

text \<open>
  Claim C8, amended. A method called before \<^verbatim>\<open>connect()\<close> ends the process in both
  backends, and it does so before it reads or writes anything.
\<close>

theorem unconnected_exits:
  "\<not> connected jdb \<Longrightarrow> \<not> linked mdb \<Longrightarrow>
   Json_set rt jdb key val = Exit \<and> Json_get jdb key = Exit \<and> Json_getAll jdb = Exit
   \<and> Json_has jdb key = Exit \<and> Json_add rt jdb key val = Exit
   \<and> Json_subtract rt jdb key val = Exit \<and> Json_delete jdb key = Exit
   \<and> Json_deleteAll jdb approve = Exit \<and> Json_push rt jdb key val = Exit
   \<and> Json_unpush jdb key val = Exit
   \<and> Mongo_set rt mdb key val = Exit \<and> Mongo_get mdb key = Exit \<and> Mongo_getAll mdb = Exit
   \<and> Mongo_has mdb key = Exit \<and> Mongo_add rt mdb key val = Exit
   \<and> Mongo_subtract rt mdb key val = Exit \<and> Mongo_delete mdb key = Exit
   \<and> Mongo_deleteAll mdb approve = Exit \<and> Mongo_push rt mdb key val = Exit
   \<and> Mongo_pull rt mdb key val = Exit"
  by (simp add: json_method_defs mongo_method_defs CheckConnection_def checkConnection_def)

theorem unconnected_exits_witness:
  "Json_set (\<lambda>v. None) \<lparr>connected = False, fileData = None\<rparr> ''a.b'' (Some (JNum 1)) = Exit
   \<and> Json_has \<lparr>connected = False, fileData = None\<rparr> ''a.b'' = Exit
   \<and> Mongo_get \<lparr>linked = False, records = []\<rparr> ''a.b'' = Exit"
  using unconnected_exits [of "\<lparr>connected = False, fileData = None\<rparr>"
          "\<lparr>linked = False, records = []\<rparr>" "\<lambda>v. None" "''a.b''" "Some (JNum 1)" "[]"]
  by simp

subsection \<open>The two backends compared\<close>

text \<open>
  Claim C1 asks the two backends to agree. They do not on \<^verbatim>\<open>set\<close> of a top-level key
  that already has a record: the file backend stores the new value, the remote backend
  assigns it to its temporary object and saves the old value again.
\<close>

theorem backends_differ_on_set:
  "Json_set (\<lambda>v. None) \<lparr>connected = True, fileData = Some [(''a'', JNum 1)]\<rparr> ''a''
      (Some (JNum 5))
     = Return (Done, \<lparr>connected = True, fileData = Some [(''a'', JNum 5)]\<rparr>)
   \<and> Mongo_set (\<lambda>v. None) \<lparr>linked = True, records = [(''a'', JNum 1)]\<rparr> ''a''
      (Some (JNum 5))
     = Return (Done, \<lparr>linked = True, records = [(''a'', JNum 1)]\<rparr>)"
  by (simp add: Json_set_def Mongo_set_def eval_defs)

subsection \<open>Removing array elements\<close>

text \<open>
  Claim C5 at a top-level key of the remote backend: \<^verbatim>\<open>pull("tags", "x")\<close> finds the
  match and reports no warning, yet the stored array keeps the element, because the
  \<^verbatim>\<open>set\<close> it ends with saves the old value. The file backend removes the element.
\<close>

theorem mongo_pull_top_level_keeps_array:
  "Mongo_pull (\<lambda>v. None)
      \<lparr>linked = True, records = [(''tags'', JArr [JStr ''x'', JStr ''y''])]\<rparr>
      ''tags'' (Some (JStr ''x''))
     = Return (Done, \<lparr>linked = True, records = [(''tags'', JArr [JStr ''x'', JStr ''y''])]\<rparr>)
   \<and> Json_unpush
      \<lparr>connected = True, fileData = Some [(''tags'', JArr [JStr ''x'', JStr ''y''])]\<rparr>
      ''tags'' (Some (JStr ''x''))
     = Return (Done, \<lparr>connected = True, fileData = Some [(''tags'', JArr [JStr ''y''])]\<rparr>)"
  by (simp add: Mongo_pull_def Mongo_get_def Mongo_set_def Json_unpush_def eval_defs
      numeral_2_eq_2)

subsection \<open>set followed by get\<close>

text \<open>
  Claim C2 says that \<^verbatim>\<open>get(k)\<close> after \<^verbatim>\<open>set(k, v)\<close> returns \<open>v\<close> for every non-empty
  key. In the file backend \<^verbatim>\<open>set("a.x", 5)\<close> on the document \<^verbatim>\<open>{a: [1, 2]}\<close> walks
  into the array and assigns the value to its property \<^verbatim>\<open>x\<close>, which
  \<^verbatim>\<open>JSON.stringify\<close> does not write: the method logs no warning, the file is written
  as it was, and \<^verbatim>\<open>get("a.x")\<close> finds nothing.
\<close>

theorem set_then_get_lost_on_array:
  "Json_set (\<lambda>v. None) \<lparr>connected = True, fileData = Some [(''a'', JArr [JNum 1, JNum 2])]\<rparr>
      ''a.x'' (Some (JNum 5))
     = Return (Done, \<lparr>connected = True, fileData = Some [(''a'', JArr [JNum 1, JNum 2])]\<rparr>)
   \<and> Json_get \<lparr>connected = True, fileData = Some [(''a'', JArr [JNum 1, JNum 2])]\<rparr> ''a.x''
     = Return (NotFound, None)"
  by (simp add: Json_set_def Json_get_def eval_defs)

subsection \<open>Reading through a value that is no object\<close>

text \<open>
  Claim C3 says that \<^verbatim>\<open>get\<close> answers "not found" when an intermediate value is not an
  object. The loop of the file backend's \<^verbatim>\<open>get\<close> tests only
  \<^verbatim>\<open>current[k] === undefined\<close>, so on the document \<^verbatim>\<open>{a: "hello"}\<close> it returns
  \<^verbatim>\<open>5\<close> for \<^verbatim>\<open>"a.length"\<close> and \<^verbatim>\<open>"h"\<close> for \<^verbatim>\<open>"a.0"\<close>, where its own \<^verbatim>\<open>has\<close>
  answers \<^verbatim>\<open>false\<close> and the remote backend's \<^verbatim>\<open>get\<close> finds nothing; and on
  \<^verbatim>\<open>{a: null}\<close> the read of \<^verbatim>\<open>null["b"]\<close> throws, so \<^verbatim>\<open>get("a.b")\<close> logs a failure
  where the remote backend logs "not found".
\<close>

theorem file_get_reads_through_string:
  "Json_get \<lparr>connected = True, fileData = Some [(''a'', JStr ''hello'')]\<rparr> ''a.length''
     = Return (Done, Some (JNum 5))
   \<and> Json_get \<lparr>connected = True, fileData = Some [(''a'', JStr ''hello'')]\<rparr> ''a.0''
     = Return (Done, Some (JStr ''h''))
   \<and> Json_has \<lparr>connected = True, fileData = Some [(''a'', JStr ''hello'')]\<rparr> ''a.length''
     = Return (Done, False)
   \<and> Mongo_get \<lparr>linked = True, records = [(''a'', JStr ''hello'')]\<rparr> ''a.length''
     = Return (NotFound, None)
   \<and> Json_get \<lparr>connected = True, fileData = Some [(''a'', JNull)]\<rparr> ''a.b''
     = Return (Failed, None)
   \<and> Mongo_get \<lparr>linked = True, records = [(''a'', JNull)]\<rparr> ''a.b''
     = Return (NotFound, None)"
  by (simp add: Json_get_def Json_has_def Mongo_get_def eval_defs)

subsection \<open>add and subtract on a key that is absent\<close>

text \<open>
  Claim C6 says that \<^verbatim>\<open>add(k, n)\<close> on an absent key stores \<open>n\<close>, and that a present
  value that is no number is left alone. Three runs show otherwise.
  On the file \<^verbatim>\<open>{a: [1, 2]}\<close> the key \<^verbatim>\<open>"a.x"\<close> is absent; \<^verbatim>\<open>add("a.x", 3)\<close>
  assigns 3 to a property of the array that is not written, logs no warning and leaves
  the file as it was.
  On the collection with the record \<^verbatim>\<open>{key: "a", value: 1}\<close> the key \<^verbatim>\<open>"a.b"\<close> is
  absent; \<^verbatim>\<open>add("a.b", 3)\<close> and \<^verbatim>\<open>subtract("a.b", 3)\<close> end in a \<^verbatim>\<open>set\<close> that saves
  the old value, log no warning and store nothing.
  On the file \<^verbatim>\<open>{a: "hello"}\<close> \<^verbatim>\<open>get("a.0")\<close> returns the string \<^verbatim>\<open>"h"\<close>, yet
  \<^verbatim>\<open>add("a.0", 3)\<close> replaces the string \<^verbatim>\<open>"hello"\<close> by an object and stores 3 in it.
\<close>

theorem add_on_absent_key_stores_nothing:
  "Json_has \<lparr>connected = True, fileData = Some [(''a'', JArr [JNum 1, JNum 2])]\<rparr> ''a.x''
     = Return (Done, False)
   \<and> Json_add (\<lambda>v. None) \<lparr>connected = True, fileData = Some [(''a'', JArr [JNum 1, JNum 2])]\<rparr>
       ''a.x'' (Some (JNum 3))
     = Return (Done, \<lparr>connected = True, fileData = Some [(''a'', JArr [JNum 1, JNum 2])]\<rparr>)
   \<and> Json_get \<lparr>connected = True, fileData = Some [(''a'', JArr [JNum 1, JNum 2])]\<rparr> ''a.x''
     = Return (NotFound, None)
   \<and> Mongo_get \<lparr>linked = True, records = [(''a'', JNum 1)]\<rparr> ''a.b''
     = Return (NotFound, None)
   \<and> Mongo_add (\<lambda>v. None) \<lparr>linked = True, records = [(''a'', JNum 1)]\<rparr> ''a.b'' (Some (JNum 3))
     = Return (Done, \<lparr>linked = True, records = [(''a'', JNum 1)]\<rparr>)
   \<and> Mongo_subtract (\<lambda>v. None) \<lparr>linked = True, records = [(''a'', JNum 1)]\<rparr> ''a.b''
       (Some (JNum 3))
     = Return (Done, \<lparr>linked = True, records = [(''a'', JNum 1)]\<rparr>)
   \<and> Json_get \<lparr>connected = True, fileData = Some [(''a'', JStr ''hello'')]\<rparr> ''a.0''
     = Return (Done, Some (JStr ''h''))
   \<and> Json_add (\<lambda>v. None) \<lparr>connected = True, fileData = Some [(''a'', JStr ''hello'')]\<rparr>
       ''a.0'' (Some (JNum 3))
     = Return (Done, \<lparr>connected = True, fileData = Some [(''a'', JObj [(''0'', JNum 3)])]\<rparr>)"
  by (simp add: Json_has_def Json_add_def Json_get_def Mongo_get_def Mongo_add_def
      Mongo_subtract_def Mongo_set_def eval_defs)

subsection \<open>Paths through own properties\<close>

lemma split_dot_nonempty: "split_dot s \<noteq> []"
  by (induction s) (auto split: list.splits)

lemma split_dot_nodot: "CHR ''.'' \<notin> set s \<Longrightarrow> split_dot s = [s]"
  by (induction s) auto

lemma split_dot_append: "split_dot (p @ CHR ''.'' # q) = split_dot p @ split_dot q"
  by (induction p) (auto split: list.splits simp: split_dot_nonempty)

lemma firstKey_append: "ks \<noteq> [] \<Longrightarrow> firstKey (ks @ ks') = firstKey ks"
  by (cases ks) auto

lemma getProp_own: "ownProp cur k = Some w \<Longrightarrow> getProp cur k = Inr (Some w)"
  by (cases cur) (simp_all add: getProp_def)

lemma getProp_Some_iff: "getProp cur k = Inr (Some w) \<longleftrightarrow> ownProp cur k = Some w"
  by (cases cur) (auto simp: getProp_def split: option.splits if_splits)

lemma container_cases:
  "truthy cur \<and> typeofObject cur \<longleftrightarrow> (\<exists>kvs. cur = JObj kvs) \<or> (\<exists>xs. cur = JArr xs)"
  by (cases cur) auto

lemma ownKey_ownProp:
  assumes "truthy cur \<and> typeofObject cur"
  shows "ownKey cur k \<longleftrightarrow> ownProp cur k \<noteq> None"
proof (cases cur)
  case (JObj kvs)
  then show ?thesis by (simp add: map_of_eq_None_iff)
next
  case (JArr xs)
  then show ?thesis by (cases "arrayIndex k") auto
qed (use assms in auto)

lemma hasProp_own:
  "truthy cur \<and> typeofObject cur \<Longrightarrow> ownProp cur k = Some w \<Longrightarrow> hasProp cur k"
  using ownKey_ownProp [of cur k] by (simp add: hasProp_def)

lemma get_loop_append:
  "get_loop cur (ks @ ks') =
     (case get_loop cur ks of
        Inl e \<Rightarrow> Inl e
      | Inr None \<Rightarrow> Inr None
      | Inr (Some w) \<Rightarrow> get_loop w ks')"
  by (induction ks arbitrary: cur) (auto split: sum.splits option.splits)

lemma getNestedValue_append:
  "getNestedValue cur (ks @ ks') =
     (case getNestedValue cur ks of
        Inl e \<Rightarrow> Inl e
      | Inr None \<Rightarrow> Inr None
      | Inr (Some w) \<Rightarrow> getNestedValue w ks')"
  by (induction ks arbitrary: cur) (auto split: sum.splits option.splits)

lemma map_of_setOwn: "map_of (setOwn k v kvs) k = Some v"
  by (induction kvs) auto

lemma map_of_setOwn_other: "k' \<noteq> k \<Longrightarrow> map_of (setOwn k v kvs) k' = map_of kvs k'"
  by (induction kvs) auto

lemma replaceProp_then_ownProp:
  assumes "ownProp cur k = Some w" "truthy w \<and> typeofObject w"
  shows "ownProp (replaceProp cur k child) k = Some child
         \<and> truthy (replaceProp cur k child) \<and> typeofObject (replaceProp cur k child)
         \<and> (isArray (replaceProp cur k child) \<longleftrightarrow> isArray cur)"
proof (cases cur)
  case (JObj kvs)
  then show ?thesis by (simp add: map_of_setOwn)
next
  case (JArr xs)
  show ?thesis
  proof (cases "arrayIndex k")
    case None
    with assms show ?thesis unfolding JArr by (auto split: if_splits)
  next
    case (Some i)
    with assms show ?thesis unfolding JArr by (auto split: if_splits)
  qed
next
  case (JStr s)
  with assms show ?thesis by (auto split: option.splits if_splits)
qed (use assms in auto)

lemma get_loop_num: "get_loop (JNum n) ks = Inr (Some r) \<Longrightarrow> r = JNum n"
  by (cases ks) (auto simp: getProp_def split: if_splits)

lemma get_loop_str:
  "get_loop (JStr s) ks = Inr (Some r) \<Longrightarrow> (\<exists>t. r = JStr t) \<or> (\<exists>n. r = JNum n)"
proof (induction ks arbitrary: s)
  case Nil
  then show ?case by auto
next
  case (Cons k ks)
  from Cons.prems obtain w where w: "ownProp (JStr s) k = Some w" "get_loop w ks = Inr (Some r)"
    by (auto simp: getProp_Some_iff split: sum.splits option.splits)
  from w(1) have "(\<exists>t. w = JStr t) \<or> (\<exists>n. w = JNum n)"
    by (auto split: option.splits if_splits)
  then show ?case using w(2) Cons.IH get_loop_num by blast
qed

lemma get_loop_array_container:
  assumes "get_loop w ks = Inr (Some (JArr xs))" "ks \<noteq> []"
  shows "truthy w \<and> typeofObject w"
proof (cases w)
  case (JStr s)
  with assms(1) get_loop_str [of s ks "JArr xs"] show ?thesis by auto
next
  case JNull
  with assms show ?thesis by (cases ks) (auto simp: getProp_def)
next
  case (JBool b)
  with assms show ?thesis by (cases ks) (auto simp: getProp_def split: if_splits)
next
  case (JNum n)
  with assms(1) get_loop_num [of n ks "JArr xs"] show ?thesis by auto
qed simp_all

lemma get_loop_Cons_obtain:
  assumes "get_loop cur (k # ks) = Inr (Some r)"
  obtains w where "getProp cur k = Inr (Some w)" "ownProp cur k = Some w" "get_loop w ks = Inr (Some r)"
  using assms by (auto simp: getProp_Some_iff split: sum.splits option.splits)

lemma getNestedValue_Cons_obtain:
  assumes "getNestedValue cur (k # ks) = Inr (Some r)"
  obtains w where "truthy cur \<and> typeofObject cur" "hasProp cur k" "ownProp cur k = Some w"
    "getNestedValue w ks = Inr (Some r)"
  using assms
  by (cases cur) (auto simp: getProp_Some_iff split: if_splits sum.splits option.splits)

lemma getNestedValue_Cons_intro:
  "truthy cur \<and> typeofObject cur \<Longrightarrow> ownProp cur k = Some w
     \<Longrightarrow> getNestedValue cur (k # ks) = getNestedValue w ks"
  using hasProp_own [of cur k w] by (cases cur) (auto simp: getProp_own)

subsection \<open>The order of the elements that stay\<close>

lemma pull_loop_general:
  "pull_loop v (pre @ post) (length pre) rc
     = (filter (\<lambda>e. \<not> shouldRemove e v) pre @ post,
        rc + length (filter (\<lambda>e. shouldRemove e v) pre))"
proof (induction pre arbitrary: post rc rule: rev_induct)
  case Nil
  then show ?case by simp
next
  case (snoc x pre)
  show ?case
  proof (cases "shouldRemove x v")
    case True
    then show ?thesis using snoc [of post "Suc rc"] by simp
  next
    case False
    then show ?thesis using snoc [of "x # post" rc] by simp
  qed
qed

lemma pull_loop_filter:
  "pull_loop v xs (length xs) 0
     = (filter (\<lambda>e. \<not> shouldRemove e v) xs, length (filter (\<lambda>e. shouldRemove e v) xs))"
  using pull_loop_general [of v xs "[]" 0] by simp

lemma removed_count_pos:
  "0 < length (filter (\<lambda>e. shouldRemove e v) xs) \<longleftrightarrow> (\<exists>e\<in>set xs. shouldRemove e v)"
  by (simp add: filter_empty_conv)

lemma unpush_final_array:
  assumes "ownProp cur k = Some (JArr xs)"
  shows "unpush_final v cur k =
           (if \<exists>e\<in>set xs. shouldRemove e v
            then Inr (Done, replaceProp cur k (JArr (filter (\<lambda>e. \<not> shouldRemove e v) xs)))
            else Inr (NoMatch, cur))"
  using getProp_own [OF assms]
  by (simp add: unpush_final_def pull_loop_filter removed_count_pos
      del: length_greater_0_conv)

lemma unpush_loop:
  assumes "get_loop cur keys = Inr (Some (JArr xs))" "keys \<noteq> []" "truthy cur \<and> typeofObject cur"
  shows "((\<exists>e\<in>set xs. shouldRemove e v) \<longrightarrow>
           (\<exists>cur'. read_resolve PathMissing (unpush_final v) cur keys = Inr (Done, cur')
              \<and> truthy cur' \<and> typeofObject cur' \<and> (isArray cur' \<longleftrightarrow> isArray cur)
              \<and> get_loop cur' keys = Inr (Some (JArr (filter (\<lambda>e. \<not> shouldRemove e v) xs)))))
       \<and> (\<not> (\<exists>e\<in>set xs. shouldRemove e v) \<longrightarrow>
           (\<exists>c. read_resolve PathMissing (unpush_final v) cur keys = Inr (NoMatch, c)))"
  using assms
proof (induction keys arbitrary: cur)
  case Nil
  then show ?case by simp
next
  case (Cons k ks)
  let ?ys = "filter (\<lambda>e. \<not> shouldRemove e v) xs"
  show ?case
  proof (cases ks)
    case Nil
    from Cons.prems(1) have o: "ownProp cur k = Some (JArr xs)"
      unfolding Nil by (auto simp: getProp_Some_iff split: sum.splits option.splits)
    have ca: "truthy (JArr xs) \<and> typeofObject (JArr xs)" by simp
    from replaceProp_then_ownProp [OF o ca, of "JArr ?ys"]
    have r: "ownProp (replaceProp cur k (JArr ?ys)) k = Some (JArr ?ys)"
      "truthy (replaceProp cur k (JArr ?ys))" "typeofObject (replaceProp cur k (JArr ?ys))"
      "isArray (replaceProp cur k (JArr ?ys)) \<longleftrightarrow> isArray cur" by simp_all
    have "get_loop (replaceProp cur k (JArr ?ys)) [k] = Inr (Some (JArr ?ys))"
      using getProp_own [OF r(1)] by simp
    then show ?thesis unfolding Nil using r by (simp add: unpush_final_array [OF o])
  next
    case ks: (Cons k' ks')
    from Cons.prems(1) obtain w where w: "getProp cur k = Inr (Some w)" "ownProp cur k = Some w"
      "get_loop w ks = Inr (Some (JArr xs))" by (rule get_loop_Cons_obtain)
    have "ks \<noteq> []" by (simp add: ks)
    from get_loop_array_container [OF w(3) this] have cw: "truthy w \<and> typeofObject w" .
    note IH = Cons.IH [OF w(3) \<open>ks \<noteq> []\<close> cw]
    show ?thesis
    proof (cases "\<exists>e\<in>set xs. shouldRemove e v")
      case True
      with IH obtain child where
        child: "read_resolve PathMissing (unpush_final v) w (k' # ks') = Inr (Done, child)"
          "get_loop child ks = Inr (Some (JArr ?ys))"
        unfolding ks by blast
      from replaceProp_then_ownProp [OF w(2) cw, of child]
      have r: "ownProp (replaceProp cur k child) k = Some child"
        "truthy (replaceProp cur k child)" "typeofObject (replaceProp cur k child)"
        "isArray (replaceProp cur k child) \<longleftrightarrow> isArray cur" by simp_all
      have "get_loop (replaceProp cur k child) (k # ks) = Inr (Some (JArr ?ys))"
        using getProp_own [OF r(1)] child(2) by simp
      then show ?thesis unfolding ks using True w(1) cw child(1) r by simp
    next
      case False
      with IH obtain c where
        "read_resolve PathMissing (unpush_final v) w (k' # ks') = Inr (NoMatch, c)"
        unfolding ks by blast
      then show ?thesis unfolding ks using False w(1) cw by simp
    qed
  qed
qed

lemma Json_get_parts:
  assumes "connected jdb" "Json_get jdb key = Return (l, Some r)"
  shows "get_loop (JObj (ReadDatabase jdb)) (split_dot key) = Inr (Some r) \<and> key \<noteq> [] \<and> l = Done"
proof -
  have k: "key \<noteq> []" using assms
    by (auto simp: Json_get_def CheckConnection_def invalidKey_def split: if_splits)
  show ?thesis
  proof (cases "get_loop (JObj (ReadDatabase jdb)) (split_dot key)")
    case (Inl s)
    then show ?thesis using assms k
      by (cases s) (simp_all add: Json_get_def CheckConnection_def invalidKey_def)
  next
    case (Inr c)
    then show ?thesis using assms k
      by (cases c) (simp_all add: Json_get_def CheckConnection_def invalidKey_def)
  qed
qed

lemma Json_get_intro:
  assumes "connected jdb" "key \<noteq> []"
    "get_loop (JObj (ReadDatabase jdb)) (split_dot key) = Inr (Some r)"
  shows "Json_get jdb key = Return (Done, Some r)"
  using assms by (simp add: Json_get_def CheckConnection_def invalidKey_def)

lemma Json_unpush_array:
  assumes "connected jdb" "Json_get jdb key = Return (l, Some (JArr xs))"
  shows "((\<exists>e\<in>set xs. shouldRemove e v) \<longrightarrow>
           (\<exists>jdb'. Json_unpush jdb key (Some v) = Return (Done, jdb')
              \<and> Json_get jdb' key
                  = Return (Done, Some (JArr (filter (\<lambda>e. \<not> shouldRemove e v) xs)))))
       \<and> (\<not> (\<exists>e\<in>set xs. shouldRemove e v) \<longrightarrow>
           Json_unpush jdb key (Some v) = Return (NoMatch, jdb))"
proof -
  let ?d = "JObj (ReadDatabase jdb)"
  from Json_get_parts [OF assms] have g: "get_loop ?d (split_dot key) = Inr (Some (JArr xs))"
    and k: "key \<noteq> []" by simp_all
  have c: "truthy ?d \<and> typeofObject ?d" by simp
  note L = unpush_loop [OF g split_dot_nonempty c, of v]
  show ?thesis
  proof (intro conjI impI)
    assume m: "\<exists>e\<in>set xs. shouldRemove e v"
    with L obtain cur' where r: "read_resolve PathMissing (unpush_final v) ?d (split_dot key)
          = Inr (Done, cur')"
      and t: "truthy cur'" "typeofObject cur'" "\<not> isArray cur'"
      and g': "get_loop cur' (split_dot key)
          = Inr (Some (JArr (filter (\<lambda>e. \<not> shouldRemove e v) xs)))" by auto
    from t obtain kvs where kvs: "cur' = JObj kvs" by (cases cur') auto
    have s: "Json_unpush jdb key (Some v) = Return (Done, jdb\<lparr>fileData := Some kvs\<rparr>)"
      using assms(1) k r kvs
      by (simp add: Json_unpush_def CheckConnection_def invalidKey_def WriteDatabase_def)
    have "Json_get (jdb\<lparr>fileData := Some kvs\<rparr>) key
            = Return (Done, Some (JArr (filter (\<lambda>e. \<not> shouldRemove e v) xs)))"
      using assms(1) k g' kvs
      by (intro Json_get_intro) (simp_all add: ReadDatabase_def)
    with s show "\<exists>jdb'. Json_unpush jdb key (Some v) = Return (Done, jdb')
              \<and> Json_get jdb' key
                  = Return (Done, Some (JArr (filter (\<lambda>e. \<not> shouldRemove e v) xs)))" by blast
  next
    assume "\<not> (\<exists>e\<in>set xs. shouldRemove e v)"
    with L obtain c where "read_resolve PathMissing (unpush_final v) ?d (split_dot key)
          = Inr (NoMatch, c)" by blast
    then show "Json_unpush jdb key (Some v) = Return (NoMatch, jdb)"
      using assms(1) k by (simp add: Json_unpush_def CheckConnection_def invalidKey_def)
  qed
qed

lemma Mongo_get_parts:
  assumes "linked mdb" "Mongo_get mdb key = Return (l, Some r)"
  obtains dv where "key \<noteq> []" "findOne mdb (firstKey (split_dot key)) = Some dv"
    "getNestedValue (JObj [(firstKey (split_dot key), dv)]) (split_dot key) = Inr (Some r)"
    "l = Done"
proof -
  have k: "key \<noteq> []" using assms
    by (auto simp: Mongo_get_def checkConnection_def invalidKey_def split: if_splits)
  show ?thesis
  proof (cases "findOne mdb (firstKey (split_dot key))")
    case None
    then show ?thesis using assms k
      by (simp add: Mongo_get_def checkConnection_def invalidKey_def Let_def)
  next
    case (Some dv)
    show ?thesis
    proof (cases "getNestedValue (JObj [(firstKey (split_dot key), dv)]) (split_dot key)")
      case (Inl s)
      then show ?thesis using assms k Some
        by (cases s) (simp_all add: Mongo_get_def checkConnection_def invalidKey_def Let_def)
    next
      case (Inr c)
      then show ?thesis using assms k Some that [of dv]
        by (cases c) (simp_all add: Mongo_get_def checkConnection_def invalidKey_def Let_def)
    qed
  qed
qed

lemma found_value_truthy:
  assumes "getNestedValue (JObj [(k0, dv)]) (k0 # rest) = Inr (Some (JArr xs))"
  shows "truthy dv"
proof -
  have c: "truthy (JObj [(k0, dv)]) \<and> typeofObject (JObj [(k0, dv)])" by simp
  have o: "ownProp (JObj [(k0, dv)]) k0 = Some dv" by simp
  from assms have g: "getNestedValue dv rest = Inr (Some (JArr xs))"
    unfolding getNestedValue_Cons_intro [OF c o] .
  show ?thesis
  proof (cases rest)
    case Nil
    with g show ?thesis by simp
  next
    case (Cons k' ks)
    from g have "getNestedValue dv (k' # ks) = Inr (Some (JArr xs))" unfolding Cons .
    then have "truthy dv \<and> typeofObject dv" by (rule getNestedValue_Cons_obtain)
    then show ?thesis by simp
  qed
qed

lemma Mongo_set_keeps_truthy_record:
  assumes "linked mdb" "key \<noteq> []" "findOne mdb (firstKey (split_dot key)) = Some old"
    "truthy old" "Mongo_set rt mdb key (Some v) = Return (l, mdb')"
  shows "mdb' = mdb"
proof (cases "setNestedValue rt (JObj [(firstKey (split_dot key), old)]) (split_dot key) v")
  case (Inl s)
  then show ?thesis using assms
    by (cases s) (simp_all add: Mongo_set_def checkConnection_def invalidKey_def Let_def)
next
  case (Inr tmp)
  then show ?thesis using assms
    by (simp add: Mongo_set_def checkConnection_def invalidKey_def Let_def save_loaded_def)
qed

lemma Mongo_pull_array:
  assumes "linked mdb" "Mongo_get mdb key = Return (l, Some (JArr xs))"
    "Mongo_pull rt mdb key (Some v) = Return (l', mdb')"
  shows "\<exists>ys. Mongo_get mdb' key = Return (Done, Some (JArr ys)) \<and> subseq ys xs
           \<and> filter (\<lambda>e. \<not> shouldRemove e v) ys = filter (\<lambda>e. \<not> shouldRemove e v) xs"
proof -
  let ?ys = "filter (\<lambda>e. \<not> shouldRemove e v) xs"
  from assms(1,2) obtain dv where k: "key \<noteq> []" and l: "l = Done"
    and f: "findOne mdb (firstKey (split_dot key)) = Some dv"
    and g: "getNestedValue (JObj [(firstKey (split_dot key), dv)]) (split_dot key)
              = Inr (Some (JArr xs))"
    by (rule Mongo_get_parts)
  obtain k0 rest where sp: "split_dot key = k0 # rest"
    using split_dot_nonempty [of key] by (cases "split_dot key") auto
  have t: "truthy dv" using g found_value_truthy [of k0 dv rest xs] by (simp add: sp)
  have "mdb' = mdb"
  proof (cases "\<exists>e\<in>set xs. shouldRemove e v")
    case True
    then have "Mongo_pull rt mdb key (Some v) = Mongo_set rt mdb key (Some (JArr ?ys))"
      using assms(1,2) k
      by (simp add: Mongo_pull_def checkConnection_def invalidKey_def pull_loop_filter
          removed_count_pos del: length_greater_0_conv)
    with assms(3) have "Mongo_set rt mdb key (Some (JArr ?ys)) = Return (l', mdb')" by simp
    from Mongo_set_keeps_truthy_record [OF assms(1) k f t this] show ?thesis .
  next
    case False
    then have "Mongo_pull rt mdb key (Some v) = Return (NoMatch, mdb)"
      using assms(1,2) k
      by (simp add: Mongo_pull_def checkConnection_def invalidKey_def pull_loop_filter
          removed_count_pos del: length_greater_0_conv)
    with assms(3) show ?thesis by simp
  qed
  then show ?thesis using assms(2) l by (intro exI [of _ xs]) simp
qed

text \<open>
  Claim C9. Let \<^verbatim>\<open>get(k)\<close> return the array \<open>xs\<close>. After \<^verbatim>\<open>unpush(k, v)\<close> of the file
  backend, and after \<^verbatim>\<open>pull(k, v)\<close> of the remote backend, \<^verbatim>\<open>get(k)\<close> returns an array
  \<open>ys\<close> that is a subsequence of \<open>xs\<close> and holds every element of \<open>xs\<close> that the
  removal test rejects, in the order they have in \<open>xs\<close>.
\<close>

theorem pull_keeps_order:
  assumes "connected jdb" and "linked mdb"
  shows
   "(\<forall>l l' jdb'. Json_get jdb key = Return (l, Some (JArr xs))
        \<and> Json_unpush jdb key (Some v) = Return (l', jdb')
      \<longrightarrow> (\<exists>ys. Json_get jdb' key = Return (Done, Some (JArr ys)) \<and> subseq ys xs
             \<and> filter (\<lambda>e. \<not> shouldRemove e v) ys = filter (\<lambda>e. \<not> shouldRemove e v) xs))
    \<and> (\<forall>l l' mdb'. Mongo_get mdb key = Return (l, Some (JArr xs))
        \<and> Mongo_pull rt mdb key (Some v) = Return (l', mdb')
      \<longrightarrow> (\<exists>ys. Mongo_get mdb' key = Return (Done, Some (JArr ys)) \<and> subseq ys xs
             \<and> filter (\<lambda>e. \<not> shouldRemove e v) ys = filter (\<lambda>e. \<not> shouldRemove e v) xs))"
proof (intro conjI allI impI)
  fix l l' jdb'
  let ?ys = "filter (\<lambda>e. \<not> shouldRemove e v) xs"
  assume a: "Json_get jdb key = Return (l, Some (JArr xs))
        \<and> Json_unpush jdb key (Some v) = Return (l', jdb')"
  then have g: "Json_get jdb key = Return (l, Some (JArr xs))"
    and u: "Json_unpush jdb key (Some v) = Return (l', jdb')" by simp_all
  from Json_get_parts [OF assms(1) g] have ld: "l = Done" by simp
  note U = Json_unpush_array [OF assms(1) g, of v]
  show "\<exists>ys. Json_get jdb' key = Return (Done, Some (JArr ys)) \<and> subseq ys xs
             \<and> filter (\<lambda>e. \<not> shouldRemove e v) ys = filter (\<lambda>e. \<not> shouldRemove e v) xs"
  proof (cases "\<exists>e\<in>set xs. shouldRemove e v")
    case True
    with U u have "Json_get jdb' key = Return (Done, Some (JArr ?ys))" by auto
    then show ?thesis by (intro exI [of _ ?ys]) simp
  next
    case False
    with U u have "jdb' = jdb" by simp
    then show ?thesis using g ld by (intro exI [of _ xs]) simp
  qed
next
  fix l l' mdb'
  assume "Mongo_get mdb key = Return (l, Some (JArr xs))
        \<and> Mongo_pull rt mdb key (Some v) = Return (l', mdb')"
  then show "\<exists>ys. Mongo_get mdb' key = Return (Done, Some (JArr ys)) \<and> subseq ys xs
             \<and> filter (\<lambda>e. \<not> shouldRemove e v) ys = filter (\<lambda>e. \<not> shouldRemove e v) xs"
    using Mongo_pull_array [OF assms(2), of key l xs rt v l' mdb'] by blast
qed

theorem pull_keeps_order_witness:
  "(\<exists>ys. Json_get \<lparr>connected = True, fileData = Some [(''t'', JArr [JStr ''y'', JStr ''z''])]\<rparr> ''t''
            = Return (Done, Some (JArr ys))
        \<and> subseq ys [JStr ''x'', JStr ''y'', JStr ''x'', JStr ''z'']
        \<and> filter (\<lambda>e. \<not> shouldRemove e (JStr ''x'')) ys
            = filter (\<lambda>e. \<not> shouldRemove e (JStr ''x''))
                [JStr ''x'', JStr ''y'', JStr ''x'', JStr ''z''])
   \<and> (\<exists>ys. Mongo_get
            \<lparr>linked = True,
               records = [(''a'', JObj [(''t'', JArr [JStr ''x'', JStr ''y'', JStr ''x'', JStr ''z''])])]\<rparr>
            ''a.t'' = Return (Done, Some (JArr ys))
        \<and> subseq ys [JStr ''x'', JStr ''y'', JStr ''x'', JStr ''z'']
        \<and> filter (\<lambda>e. \<not> shouldRemove e (JStr ''x'')) ys
            = filter (\<lambda>e. \<not> shouldRemove e (JStr ''x''))
                [JStr ''x'', JStr ''y'', JStr ''x'', JStr ''z''])"
proof -
  let ?xs = "[JStr ''x'', JStr ''y'', JStr ''x'', JStr ''z'']"
  let ?J = "\<lparr>connected = True, fileData = Some [(''t'', JArr ?xs)]\<rparr>"
  let ?M = "\<lparr>linked = True, records = [(''a'', JObj [(''t'', JArr ?xs)])]\<rparr>"
  have c: "connected ?J" "linked ?M" by simp_all
  have gj: "Json_get ?J ''t'' = Return (Done, Some (JArr ?xs))"
    by (simp add: Json_get_def eval_defs)
  have uj: "Json_unpush ?J ''t'' (Some (JStr ''x''))
      = Return (Done, \<lparr>connected = True, fileData = Some [(''t'', JArr [JStr ''y'', JStr ''z''])]\<rparr>)"
    by (simp add: Json_unpush_def eval_defs numeral_eq_Suc)
  have gm: "Mongo_get ?M ''a.t'' = Return (Done, Some (JArr ?xs))"
    by (simp add: Mongo_get_def eval_defs)
  have um: "Mongo_pull (\<lambda>v. None) ?M ''a.t'' (Some (JStr ''x'')) = Return (Done, ?M)"
    by (simp add: Mongo_pull_def Mongo_get_def Mongo_set_def eval_defs numeral_eq_Suc)
  note T = pull_keeps_order [OF c, of "''t''" ?xs "JStr ''x''" "\<lambda>v. None"]
  note T' = pull_keeps_order [OF c, of "''a.t''" ?xs "JStr ''x''" "\<lambda>v. None"]
  from T [THEN conjunct1, rule_format, OF conjI, OF gj uj]
    T' [THEN conjunct2, rule_format, OF conjI, OF gm um]
  show ?thesis by blast
qed

subsection \<open>Arrays on the path\<close>

lemma digitsValue_nodot: "digitsValue acc s = Some n \<Longrightarrow> CHR ''.'' \<notin> set s"
  by (induction s arbitrary: acc) (auto simp: digitOf_def split: option.splits)

lemma arrayIndex_nodot:
  assumes "arrayIndex s = Some i"
  shows "CHR ''.'' \<notin> set s"
proof -
  from assms obtain j where "canonicalIndex s = Some j"
    by (auto simp: arrayIndex_def split: option.splits)
  then have "digitsValue 0 s = Some j"
    by (cases s) (simp_all add: canonicalIndex_def del: digitsValue.simps split: if_splits)
  then show ?thesis by (rule digitsValue_nodot)
qed

lemma split_dot_snoc:
  "CHR ''.'' \<notin> set s \<Longrightarrow> split_dot (p @ CHR ''.'' # s) = split_dot p @ [s]"
  by (simp add: split_dot_append split_dot_nodot)

lemma get_loop_to_array_value:
  assumes "get_loop w ks = Inr (Some (JArr xs))"
  shows "truthy w \<and> typeofObject w"
proof (cases ks)
  case Nil
  with assms show ?thesis by simp
next
  case (Cons k ks')
  then have "ks \<noteq> []" by simp
  from get_loop_array_container [OF assms this] show ?thesis .
qed

lemma has_loop_into_array:
  assumes "get_loop cur ks = Inr (Some (JArr xs))" "ownProp (JArr xs) s = Some e"
  shows "has_loop cur (ks @ [s]) = Inr True"
  using assms(1)
proof (induction ks arbitrary: cur)
  case Nil
  then have "cur = JArr xs" by simp
  moreover have "hasProp (JArr xs) s"
    using hasProp_own [of "JArr xs" s e] assms(2) by simp
  ultimately show ?case using getProp_own [OF assms(2)] by simp
next
  case (Cons k ks)
  from Cons.prems obtain w where w: "getProp cur k = Inr (Some w)" "ownProp cur k = Some w"
    "get_loop w ks = Inr (Some (JArr xs))" by (rule get_loop_Cons_obtain)
  have c: "truthy cur \<and> typeofObject cur"
    using get_loop_to_array_value [OF Cons.prems] .
  then have nn: "cur \<noteq> JNull" by auto
  have h: "hasProp cur k" using hasProp_own [OF c w(2)] .
  show ?case using Cons.IH [OF w(3)] c nn h w(1) by simp
qed

lemma write_into_array:
  assumes "get_loop cur ks = Inr (Some (JArr xs))" "arrayIndex s = Some i" "i < length xs"
  shows "\<exists>cur'. write_resolve rt (set_final rt v) cur (ks @ [s]) = Inr (Done, cur')
           \<and> (isArray cur' \<longleftrightarrow> isArray cur)
           \<and> get_loop cur' ks = Inr (Some (JArr (xs[i := v])))"
  using assms(1)
proof (induction ks arbitrary: cur)
  case Nil
  then have "cur = JArr xs" by simp
  then show ?case using assms(2,3) by (simp add: set_final_def)
next
  case (Cons k ks)
  from Cons.prems obtain w where w: "getProp cur k = Inr (Some w)" "ownProp cur k = Some w"
    "get_loop w ks = Inr (Some (JArr xs))" by (rule get_loop_Cons_obtain)
  have cw: "truthy w \<and> typeofObject w" using get_loop_to_array_value [OF w(3)] .
  from Cons.IH [OF w(3)] obtain child where
    child: "write_resolve rt (set_final rt v) w (ks @ [s]) = Inr (Done, child)"
      "get_loop child ks = Inr (Some (JArr (xs[i := v])))" by blast
  obtain k' ks' where sp: "ks @ [s] = k' # ks'" by (cases ks) auto
  from replaceProp_then_ownProp [OF w(2) cw, of child]
  have r: "ownProp (replaceProp cur k child) k = Some child"
    "isArray (replaceProp cur k child) \<longleftrightarrow> isArray cur" by simp_all
  have g: "get_loop (replaceProp cur k child) (k # ks) = Inr (Some (JArr (xs[i := v])))"
    using getProp_own [OF r(1)] child(2) by simp
  have "write_resolve rt (set_final rt v) cur (k # ks @ [s])
          = Inr (Done, replaceProp cur k child)"
    using w(1) cw child(1) unfolding sp by simp
  then show ?case using r(2) g by simp
qed

text \<open>
  Claim C4 says that neither resolution walks into the elements of an array by a numeric
  segment. Both do: an array is of type object, its indices are among its properties, and
  no loop of either class tests \<^verbatim>\<open>Array.isArray\<close> before it steps into a value. So
  \<^verbatim>\<open>get("arr.0")\<close> returns the first element, \<^verbatim>\<open>has("arr.0")\<close> is true, and
  \<^verbatim>\<open>set("arr.0", 9)\<close> changes one element of the stored array.
\<close>

theorem array_index_is_traversed:
  "Json_get \<lparr>connected = True, fileData = Some [(''arr'', JArr [JNum 7, JNum 8])]\<rparr> ''arr.0''
     = Return (Done, Some (JNum 7))
   \<and> Json_has \<lparr>connected = True, fileData = Some [(''arr'', JArr [JNum 7, JNum 8])]\<rparr> ''arr.0''
     = Return (Done, True)
   \<and> Mongo_has \<lparr>linked = True, records = [(''arr'', JArr [JNum 7, JNum 8])]\<rparr> ''arr.0''
     = Return (Done, True)
   \<and> Json_set (\<lambda>v. None) \<lparr>connected = True, fileData = Some [(''arr'', JArr [JNum 7, JNum 8])]\<rparr>
       ''arr.0'' (Some (JNum 9))
     = Return (Done, \<lparr>connected = True, fileData = Some [(''arr'', JArr [JNum 9, JNum 8])]\<rparr>)"
  by (simp add: Json_get_def Json_has_def Mongo_has_def Json_set_def eval_defs)

text \<open>
  Claim C4, amended. Let \<^verbatim>\<open>get(p)\<close> return an array \<open>xs\<close>, stored at whatever depth,
  and let the segment \<open>s\<close> be an array index below its length. Then \<^verbatim>\<open>get(p.s)\<close>
  returns that element and \<^verbatim>\<open>has(p.s)\<close> is true in both backends, and
  \<^verbatim>\<open>set(p.s, v)\<close> of the file backend replaces that one element: afterwards
  \<^verbatim>\<open>get(p)\<close> returns \<open>xs\<close> with \<open>v\<close> at that index and \<^verbatim>\<open>get(p.s)\<close> returns \<open>v\<close>.
  When \<open>p\<close> is a top-level key, the document written differs from the one read in that
  element only.
\<close>

theorem array_element_access:
  assumes "connected jdb" and "linked mdb"
    and "arrayIndex s = Some i" and "i < length xs"
  shows
   "(\<forall>l. Json_get jdb p = Return (l, Some (JArr xs)) \<longrightarrow>
       Json_get jdb (p @ ''.'' @ s) = Return (Done, Some (xs ! i))
     \<and> Json_has jdb (p @ ''.'' @ s) = Return (Done, True)
     \<and> (\<exists>jdb'. Json_set rt jdb (p @ ''.'' @ s) (Some v) = Return (Done, jdb')
          \<and> Json_get jdb' p = Return (Done, Some (JArr (xs[i := v])))
          \<and> Json_get jdb' (p @ ''.'' @ s) = Return (Done, Some v)))
    \<and> (\<forall>l. Mongo_get mdb p = Return (l, Some (JArr xs)) \<longrightarrow>
       Mongo_get mdb (p @ ''.'' @ s) = Return (Done, Some (xs ! i))
     \<and> Mongo_has mdb (p @ ''.'' @ s) = Return (Done, True))
    \<and> (p \<noteq> [] \<and> CHR ''.'' \<notin> set p \<and> map_of (ReadDatabase jdb) p = Some (JArr xs) \<longrightarrow>
       Json_set rt jdb (p @ ''.'' @ s) (Some v)
         = Return (Done,
             jdb\<lparr>fileData := Some (setOwn p (JArr (xs[i := v])) (ReadDatabase jdb))\<rparr>))"
proof -
  have sp: "split_dot (p @ CHR ''.'' # s) = split_dot p @ [s]"
    using split_dot_snoc [OF arrayIndex_nodot [OF assms(3)]] .
  have o: "ownProp (JArr xs) s = Some (xs ! i)" using assms(3,4) by simp
  have o': "ownProp (JArr (xs[i := v])) s = Some v" using assms(3,4) by simp
  have J: "Json_get jdb (p @ ''.'' @ s) = Return (Done, Some (xs ! i))
     \<and> Json_has jdb (p @ ''.'' @ s) = Return (Done, True)
     \<and> (\<exists>jdb'. Json_set rt jdb (p @ ''.'' @ s) (Some v) = Return (Done, jdb')
          \<and> Json_get jdb' p = Return (Done, Some (JArr (xs[i := v])))
          \<and> Json_get jdb' (p @ ''.'' @ s) = Return (Done, Some v))"
    if a: "Json_get jdb p = Return (l, Some (JArr xs))" for l
  proof -
    let ?d = "JObj (ReadDatabase jdb)"
    from Json_get_parts [OF assms(1) a]
    have g: "get_loop ?d (split_dot p) = Inr (Some (JArr xs))" and pn: "p \<noteq> []" by simp_all
    have "get_loop ?d (split_dot p @ [s]) = Inr (Some (xs ! i))"
      using g getProp_own [OF o] by (simp add: get_loop_append)
    then have 1: "Json_get jdb (p @ ''.'' @ s) = Return (Done, Some (xs ! i))"
      using assms(1) by (intro Json_get_intro) (simp_all add: sp)
    have 2: "Json_has jdb (p @ ''.'' @ s) = Return (Done, True)"
      using assms(1) has_loop_into_array [OF g o]
      by (simp add: Json_has_def CheckConnection_def invalidKey_def sp)
    from write_into_array [OF g assms(3,4), of rt v] obtain cur' where
      w: "write_resolve rt (set_final rt v) ?d (split_dot p @ [s]) = Inr (Done, cur')"
      and t: "\<not> isArray cur'"
      and g': "get_loop cur' (split_dot p) = Inr (Some (JArr (xs[i := v])))" by auto
    have "truthy cur' \<and> typeofObject cur'" using get_loop_to_array_value [OF g'] .
    with t obtain kvs where kvs: "cur' = JObj kvs" by (cases cur') auto
    let ?j = "jdb\<lparr>fileData := Some kvs\<rparr>"
    have s: "Json_set rt jdb (p @ ''.'' @ s) (Some v) = Return (Done, ?j)"
      using assms(1) w kvs
      by (simp add: Json_set_def CheckConnection_def invalidKey_def WriteDatabase_def sp)
    have c': "connected ?j" using assms(1) by simp
    have g1: "Json_get ?j p = Return (Done, Some (JArr (xs[i := v])))"
      using g' kvs pn c' by (intro Json_get_intro) (simp_all add: ReadDatabase_def)
    have "get_loop (JObj kvs) (split_dot p @ [s]) = Inr (Some v)"
      using g' kvs getProp_own [OF o'] by (simp add: get_loop_append)
    then have g2: "Json_get ?j (p @ ''.'' @ s) = Return (Done, Some v)"
      using c' by (intro Json_get_intro) (simp_all add: sp ReadDatabase_def)
    from 1 2 s g1 g2 show ?thesis by blast
  qed
  have M: "Mongo_get mdb (p @ ''.'' @ s) = Return (Done, Some (xs ! i))
     \<and> Mongo_has mdb (p @ ''.'' @ s) = Return (Done, True)"
    if a: "Mongo_get mdb p = Return (l, Some (JArr xs))" for l
  proof -
    from assms(2) a obtain dv where pn: "p \<noteq> []"
      and f: "findOne mdb (firstKey (split_dot p)) = Some dv"
      and g: "getNestedValue (JObj [(firstKey (split_dot p), dv)]) (split_dot p)
                = Inr (Some (JArr xs))"
      by (rule Mongo_get_parts)
    have fk: "firstKey (split_dot p @ [s]) = firstKey (split_dot p)"
      by (rule firstKey_append) (rule split_dot_nonempty)
    have ca: "truthy (JArr xs) \<and> typeofObject (JArr xs)" by simp
    have "getNestedValue (JArr xs) [s] = Inr (Some (xs ! i))"
      using getNestedValue_Cons_intro [OF ca o, of "[]"] by simp
    then have n: "getNestedValue (JObj [(firstKey (split_dot p), dv)]) (split_dot p @ [s])
              = Inr (Some (xs ! i))"
      using g by (simp add: getNestedValue_append)
    have 1: "Mongo_get mdb (p @ ''.'' @ s) = Return (Done, Some (xs ! i))"
      using assms(2) f n
      by (simp add: Mongo_get_def checkConnection_def invalidKey_def Let_def sp fk)
    have 2: "Mongo_has mdb (p @ ''.'' @ s) = Return (Done, True)"
      using assms(2) f n
      by (simp add: Mongo_has_def checkConnection_def invalidKey_def Let_def sp fk)
    from 1 2 show ?thesis by blast
  qed
  have K: "Json_set rt jdb (p @ ''.'' @ s) (Some v)
         = Return (Done,
             jdb\<lparr>fileData := Some (setOwn p (JArr (xs[i := v])) (ReadDatabase jdb))\<rparr>)"
    if a: "p \<noteq> [] \<and> CHR ''.'' \<notin> set p \<and> map_of (ReadDatabase jdb) p = Some (JArr xs)"
  proof -
    from a have sp2: "split_dot p = [p]" by (simp add: split_dot_nodot)
    have "getProp (JObj (ReadDatabase jdb)) p = Inr (Some (JArr xs))"
      using a by (intro getProp_own) simp
    then show ?thesis
      using assms(1,3,4)
      by (simp add: Json_set_def CheckConnection_def invalidKey_def sp sp2 set_final_def
          WriteDatabase_def)
  qed
  from J M K show ?thesis by blast
qed

theorem array_element_access_witness:
  "Json_get \<lparr>connected = True,
       fileData = Some [(''u'', JObj [(''arr'', JArr [JNum 7, JNum 8])])]\<rparr> ''u.arr.1''
     = Return (Done, Some (JNum 8))
   \<and> Json_has \<lparr>connected = True,
       fileData = Some [(''u'', JObj [(''arr'', JArr [JNum 7, JNum 8])])]\<rparr> ''u.arr.1''
     = Return (Done, True)
   \<and> (\<exists>jdb'. Json_set (\<lambda>v. None) \<lparr>connected = True,
            fileData = Some [(''u'', JObj [(''arr'', JArr [JNum 7, JNum 8])])]\<rparr> ''u.arr.1''
            (Some (JStr ''z'')) = Return (Done, jdb')
        \<and> Json_get jdb' ''u.arr'' = Return (Done, Some (JArr [JNum 7, JStr ''z''])))
   \<and> Mongo_get \<lparr>linked = True, records = [(''u'', JObj [(''arr'', JArr [JNum 7, JNum 8])])]\<rparr>
       ''u.arr.1'' = Return (Done, Some (JNum 8))
   \<and> Mongo_has \<lparr>linked = True, records = [(''u'', JObj [(''arr'', JArr [JNum 7, JNum 8])])]\<rparr>
       ''u.arr.1'' = Return (Done, True)
   \<and> Json_set (\<lambda>v. None) \<lparr>connected = True, fileData = Some [(''arr'', JArr [JNum 7, JNum 8])]\<rparr>
       ''arr.1'' (Some (JStr ''z''))
     = Return (Done, \<lparr>connected = True, fileData = Some [(''arr'', JArr [JNum 7, JStr ''z''])]\<rparr>)"
proof -
  let ?J = "\<lparr>connected = True, fileData = Some [(''u'', JObj [(''arr'', JArr [JNum 7, JNum 8])])]\<rparr>"
  let ?M = "\<lparr>linked = True, records = [(''u'', JObj [(''arr'', JArr [JNum 7, JNum 8])])]\<rparr>"
  let ?K = "\<lparr>connected = True, fileData = Some [(''arr'', JArr [JNum 7, JNum 8])]\<rparr>"
  have i: "arrayIndex ''1'' = Some 1" by (simp add: arrayIndex_def canonicalIndex_def digitOf_def)
  have l: "1 < length [JNum 7, JNum 8]" by simp
  have c: "connected ?J" "linked ?M" "connected ?K" by simp_all
  have gj: "Json_get ?J ''u.arr'' = Return (Done, Some (JArr [JNum 7, JNum 8]))"
    by (simp add: Json_get_def eval_defs)
  have gm: "Mongo_get ?M ''u.arr'' = Return (Done, Some (JArr [JNum 7, JNum 8]))"
    by (simp add: Mongo_get_def eval_defs)
  note T = array_element_access [OF c(1,2) i l, of "''u.arr''" "\<lambda>v. None" "JStr ''z''"]
  note T' = array_element_access [OF c(3,2) i l, of "''arr''" "\<lambda>v. None" "JStr ''z''"]
  from T gj have 1: "Json_get ?J ''u.arr.1'' = Return (Done, Some (JNum 8))"
    and 2: "Json_has ?J ''u.arr.1'' = Return (Done, True)"
    and 3: "\<exists>jdb'. Json_set (\<lambda>v. None) ?J ''u.arr.1'' (Some (JStr ''z'')) = Return (Done, jdb')
        \<and> Json_get jdb' ''u.arr'' = Return (Done, Some (JArr [JNum 7, JStr ''z'']))"
    by auto
  from T gm have 4: "Mongo_get ?M ''u.arr.1'' = Return (Done, Some (JNum 8))"
    and 5: "Mongo_has ?M ''u.arr.1'' = Return (Done, True)" by auto
  from T' have 6: "Json_set (\<lambda>v. None) ?K ''arr.1'' (Some (JStr ''z''))
     = Return (Done, \<lparr>connected = True, fileData = Some [(''arr'', JArr [JNum 7, JStr ''z''])]\<rparr>)"
    by (simp add: ReadDatabase_def)
  from 1 2 3 4 5 6 show ?thesis by blast
qed

subsection \<open>Writing and reading back along fresh segments\<close>




lemma has_loop_step:
  assumes "truthy cur \<and> typeofObject cur" "ownProp cur k = Some w"
  shows "has_loop cur (k # ks) = has_loop w ks"
proof -
  have "cur \<noteq> JNull" using assms(1) by auto
  then show ?thesis
    using assms(1) hasProp_own [OF assms] getProp_own [OF assms(2)] by simp
qed



subsection \<open>Key validation and empty segments\<close>


























subsection \<open>Further properties\<close>

text \<open>
  The file backend's \<^verbatim>\<open>unpush\<close> on a key whose value is an array \<open>xs\<close>: when some
  element passes the removal test, the method writes the document and \<^verbatim>\<open>get\<close> then
  returns \<open>xs\<close> without exactly the elements that pass the test; when none does, it logs
  "no match" and writes nothing.
\<close>

theorem unpush_removes_matches:
  assumes "connected jdb" and "Json_get jdb key = Return (l, Some (JArr xs))"
  shows "((\<exists>e\<in>set xs. shouldRemove e v) \<longrightarrow>
           (\<exists>jdb'. Json_unpush jdb key (Some v) = Return (Done, jdb')
              \<and> Json_get jdb' key
                  = Return (Done, Some (JArr (filter (\<lambda>e. \<not> shouldRemove e v) xs)))))
       \<and> (\<not> (\<exists>e\<in>set xs. shouldRemove e v) \<longrightarrow>
           Json_unpush jdb key (Some v) = Return (NoMatch, jdb))"
  using Json_unpush_array [OF assms] .

theorem unpush_removes_matches_witness:
  "(\<exists>jdb'. Json_unpush
        \<lparr>connected = True,
           fileData = Some [(''t'', JArr [JObj [(''a'', JNum 1), (''b'', JNum 2)]])]\<rparr>
        ''t'' (Some (JObj [(''a'', JNum 1)])) = Return (Done, jdb')
      \<and> Json_get jdb' ''t'' = Return (Done, Some (JArr [])))
   \<and> Json_unpush
        \<lparr>connected = True,
           fileData = Some [(''t'', JArr [JObj [(''a'', JNum 1), (''b'', JNum 2)]])]\<rparr>
        ''t'' (Some (JObj [(''a'', JNum 2)]))
      = Return (NoMatch,
          \<lparr>connected = True,
             fileData = Some [(''t'', JArr [JObj [(''a'', JNum 1), (''b'', JNum 2)]])]\<rparr>)"
proof -
  let ?e = "JObj [(''a'', JNum 1), (''b'', JNum 2)]"
  let ?J = "\<lparr>connected = True, fileData = Some [(''t'', JArr [?e])]\<rparr>"
  have c: "connected ?J" by simp
  have g: "Json_get ?J ''t'' = Return (Done, Some (JArr [?e]))"
    by (simp add: Json_get_def eval_defs)
  have m: "shouldRemove ?e (JObj [(''a'', JNum 1)])"
    and n: "\<not> shouldRemove ?e (JObj [(''a'', JNum 2)])"
    by (simp_all add: shouldRemove_def partialMatch_def hasProp_def)
  from unpush_removes_matches [OF c g, of "JObj [(''a'', JNum 1)]"] m
    unpush_removes_matches [OF c g, of "JObj [(''a'', JNum 2)]"] n
  show ?thesis by simp
qed

lemma getProp_of_hasProp:
  assumes "truthy cur \<and> typeofObject cur" "hasProp cur k"
  shows "getProp cur k \<noteq> Inr None"
proof -
  have "cur \<noteq> JNull" using assms(1) by auto
  then show ?thesis
    using assms(2) ownKey_ownProp [OF assms(1), of k]
    by (auto simp: getProp_def hasProp_def split: option.splits)
qed

lemma has_loop_getNestedValue:
  "has_loop w ks = (case getNestedValue w ks of Inl s \<Rightarrow> Inl s | Inr r \<Rightarrow> Inr (r \<noteq> None))"
proof (induction ks arbitrary: w)
  case Nil
  then show ?case by simp
next
  case (Cons k ks)
  show ?case
  proof (cases "w = JNull \<or> \<not> typeofObject w \<or> \<not> hasProp w k")
    case True
    then show ?thesis by auto
  next
    case False
    then have c: "truthy w \<and> typeofObject w" and h: "hasProp w k" by (cases w; simp)+
    from getProp_of_hasProp [OF c h] show ?thesis
      using False Cons.IH by (auto split: sum.splits option.splits)
  qed
qed

text \<open>
  \<^verbatim>\<open>has\<close> gives the same answer in both backends when the collection of the remote
  backend holds the records of the file backend's document, for every key whose first
  segment is a top-level key or is not the name of a member of \<^verbatim>\<open>Object.prototype\<close>.
  (For such a name without a record the file backend's \<^verbatim>\<open>in\<close> test finds the inherited
  member, and the remote backend finds no record.)
\<close>

theorem has_agrees:
  assumes "connected jdb" and "linked mdb" and "ReadDatabase jdb = records mdb"
    and "firstKey (split_dot key) \<in> fst ` set (records mdb)
         \<or> firstKey (split_dot key) \<notin> set objectMembers"
  shows "Json_has jdb key = Mongo_has mdb key"
proof (cases "key = []")
  case True
  then show ?thesis using assms(1,2)
    by (simp add: Json_has_def Mongo_has_def CheckConnection_def checkConnection_def
        invalidKey_def)
next
  case False
  obtain k0 rest where sp: "split_dot key = k0 # rest"
    using split_dot_nonempty [of key] by (cases "split_dot key") auto
  show ?thesis
  proof (cases "map_of (records mdb) k0")
    case None
    then have n: "k0 \<notin> fst ` set (records mdb)" by (simp add: map_of_eq_None_iff)
    with assms(4) have "k0 \<notin> set objectMembers" by (simp add: sp)
    then show ?thesis using assms(1,2,3) False None n
      by (simp add: Json_has_def Mongo_has_def CheckConnection_def checkConnection_def
          invalidKey_def sp findOne_def hasProp_def)
  next
    case (Some dv)
    have c: "truthy (JObj (records mdb)) \<and> typeofObject (JObj (records mdb))" by simp
    have o: "ownProp (JObj (records mdb)) k0 = Some dv" using Some by simp
    have c1: "truthy (JObj [(k0, dv)]) \<and> typeofObject (JObj [(k0, dv)])" by simp
    have o1: "ownProp (JObj [(k0, dv)]) k0 = Some dv" by simp
    have "has_loop (JObj (records mdb)) (k0 # rest) = has_loop dv rest"
      using has_loop_step [OF c o] .
    moreover have "getNestedValue (JObj [(k0, dv)]) (k0 # rest) = getNestedValue dv rest"
      using getNestedValue_Cons_intro [OF c1 o1] .
    ultimately show ?thesis using assms(1,2,3) False Some
      by (simp add: Json_has_def Mongo_has_def CheckConnection_def checkConnection_def
          invalidKey_def sp findOne_def has_loop_getNestedValue Let_def
          split: sum.splits)
  qed
qed

theorem has_agrees_witness:
  "Json_has \<lparr>connected = True, fileData = Some [(''a'', JObj [(''b'', JBool False)])]\<rparr> ''a.b''
     = Return (Done, True)
   \<and> Mongo_has \<lparr>linked = True, records = [(''a'', JObj [(''b'', JBool False)])]\<rparr> ''a.b''
     = Return (Done, True)"
proof -
  let ?J = "\<lparr>connected = True, fileData = Some [(''a'', JObj [(''b'', JBool False)])]\<rparr>"
  let ?M = "\<lparr>linked = True, records = [(''a'', JObj [(''b'', JBool False)])]\<rparr>"
  have j: "Json_has ?J ''a.b'' = Return (Done, True)"
    by (simp add: Json_has_def eval_defs)
  have "connected ?J" "linked ?M" "ReadDatabase ?J = records ?M"
    "firstKey (split_dot ''a.b'') \<in> fst ` set (records ?M)
       \<or> firstKey (split_dot ''a.b'') \<notin> set objectMembers"
    by (simp_all add: ReadDatabase_def)
  from has_agrees [OF this] j show ?thesis by simp
qed

text \<open>
  Three runs of the file backend, each from an empty document:
  \<^verbatim>\<open>set("user.data.age", 21)\<close> and then \<^verbatim>\<open>getAll()\<close>;
  \<^verbatim>\<open>set("a.b", 1); set("a.c", 2); delete("a.b")\<close> and then \<^verbatim>\<open>getAll()\<close>;
  \<^verbatim>\<open>push("tags", "x"); push("tags", "y"); unpush("tags", "x")\<close> and then
  \<^verbatim>\<open>get("tags")\<close>.
\<close>

theorem file_backend_set_getAll:
  "Json_set (\<lambda>v. None) \<lparr>connected = True, fileData = Some []\<rparr> ''user.data.age''
       (Some (JNum 21))
     = Return (Done, \<lparr>connected = True,
         fileData = Some [(''user'', JObj [(''data'', JObj [(''age'', JNum 21)])])]\<rparr>)
   \<and> Json_getAll \<lparr>connected = True,
         fileData = Some [(''user'', JObj [(''data'', JObj [(''age'', JNum 21)])])]\<rparr>
     = Return [(''user'', JObj [(''data'', JObj [(''age'', JNum 21)])])]"
  by (simp add: Json_set_def Json_getAll_def eval_defs)

theorem file_backend_set_delete:
  "Json_set (\<lambda>v. None) \<lparr>connected = True, fileData = Some []\<rparr> ''a.b'' (Some (JNum 1))
     = Return (Done, \<lparr>connected = True, fileData = Some [(''a'', JObj [(''b'', JNum 1)])]\<rparr>)
   \<and> Json_set (\<lambda>v. None) \<lparr>connected = True, fileData = Some [(''a'', JObj [(''b'', JNum 1)])]\<rparr>
       ''a.c'' (Some (JNum 2))
     = Return (Done, \<lparr>connected = True,
         fileData = Some [(''a'', JObj [(''b'', JNum 1), (''c'', JNum 2)])]\<rparr>)
   \<and> Json_delete \<lparr>connected = True,
         fileData = Some [(''a'', JObj [(''b'', JNum 1), (''c'', JNum 2)])]\<rparr> ''a.b''
     = Return (Done, \<lparr>connected = True, fileData = Some [(''a'', JObj [(''c'', JNum 2)])]\<rparr>)
   \<and> Json_getAll \<lparr>connected = True, fileData = Some [(''a'', JObj [(''c'', JNum 2)])]\<rparr>
     = Return [(''a'', JObj [(''c'', JNum 2)])]"
  by (simp add: Json_set_def Json_delete_def Json_getAll_def eval_defs)

theorem file_backend_push_unpush:
  "Json_push (\<lambda>v. None) \<lparr>connected = True, fileData = Some []\<rparr> ''tags'' (Some (JStr ''x''))
     = Return (Done, \<lparr>connected = True, fileData = Some [(''tags'', JArr [JStr ''x''])]\<rparr>)
   \<and> Json_push (\<lambda>v. None) \<lparr>connected = True, fileData = Some [(''tags'', JArr [JStr ''x''])]\<rparr>
       ''tags'' (Some (JStr ''y''))
     = Return (Done, \<lparr>connected = True,
         fileData = Some [(''tags'', JArr [JStr ''x'', JStr ''y''])]\<rparr>)
   \<and> Json_unpush \<lparr>connected = True, fileData = Some [(''tags'', JArr [JStr ''x'', JStr ''y''])]\<rparr>
       ''tags'' (Some (JStr ''x''))
     = Return (Done, \<lparr>connected = True, fileData = Some [(''tags'', JArr [JStr ''y''])]\<rparr>)
   \<and> Json_get \<lparr>connected = True, fileData = Some [(''tags'', JArr [JStr ''y''])]\<rparr> ''tags''
     = Return (Done, Some (JArr [JStr ''y'']))"
  by (simp add: Json_push_def Json_unpush_def Json_get_def eval_defs numeral_eq_Suc)

lemma getNestedValue_scalar:
  "ks \<noteq> [] \<Longrightarrow> \<not> (truthy w \<and> typeofObject w) \<Longrightarrow> getNestedValue w ks = Inr None"
  by (cases ks; cases w) auto

lemma getNestedValue_no_throw: "getNestedValue cur ks = Inl s \<Longrightarrow> s = Leave"
proof (induction ks arbitrary: cur)
  case Nil
  then show ?case by simp
next
  case (Cons k ks)
  then show ?case
    by (auto simp: getProp_def split: if_splits option.splits sum.splits)
qed

lemma Mongo_get_through_scalar:
  assumes "linked mdb" "p \<noteq> []" "Mongo_get mdb p = Return (l, r)"
    and "case r of Some (JArr xs) \<Rightarrow> False | Some (JObj kvs) \<Rightarrow> False | _ \<Rightarrow> True"
  shows "Mongo_get mdb (p @ ''.'' @ q) = Return (NotFound, None)"
proof -
  have q: "split_dot q \<noteq> []" and pn: "split_dot p \<noteq> []" by (rule split_dot_nonempty)+
  show ?thesis
  proof (cases "findOne mdb (firstKey (split_dot p))")
    case None
    then show ?thesis using assms(1,2) pn
      by (simp add: Mongo_get_def checkConnection_def invalidKey_def split_dot_append
          firstKey_append Let_def)
  next
    case f: (Some dv)
    show ?thesis
    proof (cases "getNestedValue (JObj [(firstKey (split_dot p), dv)]) (split_dot p)")
      case (Inl s)
      with getNestedValue_no_throw have "s = Leave" by blast
      with Inl show ?thesis using f assms(1,2,3)
        by (simp add: Mongo_get_def checkConnection_def invalidKey_def Let_def)
    next
      case (Inr c)
      show ?thesis
      proof (cases c)
        case None
        then show ?thesis using Inr f assms(1,2) pn
          by (simp add: Mongo_get_def checkConnection_def invalidKey_def split_dot_append
              firstKey_append Let_def getNestedValue_append)
      next
        case (Some w)
        then have r: "r = Some w" using Inr f assms(1,2,3)
          by (simp add: Mongo_get_def checkConnection_def invalidKey_def Let_def)
        then have "\<not> (truthy w \<and> typeofObject w)" using assms(4) by (cases w) auto
        from getNestedValue_scalar [OF q this] show ?thesis
          using Some Inr f assms(1,2) pn
          by (simp add: Mongo_get_def checkConnection_def invalidKey_def split_dot_append
              firstKey_append Let_def getNestedValue_append)
      qed
    qed
  qed
qed

lemma Json_get_through_nothing:
  assumes "connected jdb" "p \<noteq> []" "Json_get jdb p = Return (l, None)"
  shows "Json_get jdb (p @ ''.'' @ q) = Return (l, None)"
proof (cases "get_loop (JObj (ReadDatabase jdb)) (split_dot p)")
  case (Inl s)
  then show ?thesis using assms
    by (cases s) (simp_all add: Json_get_def CheckConnection_def invalidKey_def split_dot_append
        get_loop_append)
next
  case (Inr c)
  then show ?thesis using assms
    by (cases c) (simp_all add: Json_get_def CheckConnection_def invalidKey_def split_dot_append
        get_loop_append)
qed

lemma Json_get_through_null:
  assumes "connected jdb" "Json_get jdb p = Return (l, Some JNull)"
  shows "Json_get jdb (p @ ''.'' @ q) = Return (Failed, None)"
proof -
  from Json_get_parts [OF assms]
  have g: "get_loop (JObj (ReadDatabase jdb)) (split_dot p) = Inr (Some JNull)" by simp
  obtain k ks where q: "split_dot q = k # ks"
    using split_dot_nonempty [of q] by (cases "split_dot q") auto
  show ?thesis using assms(1) g
    by (simp add: Json_get_def CheckConnection_def invalidKey_def split_dot_append
        get_loop_append q getProp_def)
qed

lemma first_segment_absent:
  "k \<notin> fst ` set kvs \<Longrightarrow> k \<notin> set objectMembers \<Longrightarrow> get_loop (JObj kvs) (k # ks) = Inr None"
  by (simp add: getProp_def map_of_eq_None_iff [THEN iffD2])

lemma Json_get_final_absent:
  assumes "connected jdb" "Json_get jdb p = Return (l, Some (JObj kvs))"
    and "firstKey (split_dot q) \<notin> set (map fst kvs)"
    and "firstKey (split_dot q) \<notin> set objectMembers"
  shows "Json_get jdb (p @ ''.'' @ q) = Return (NotFound, None)"
proof -
  from Json_get_parts [OF assms(1,2)]
  have g: "get_loop (JObj (ReadDatabase jdb)) (split_dot p) = Inr (Some (JObj kvs))" by simp
  obtain k ks where q: "split_dot q = k # ks"
    using split_dot_nonempty [of q] by (cases "split_dot q") auto
  from assms(3,4) have "get_loop (JObj kvs) (k # ks) = Inr None"
    by (intro first_segment_absent) (simp_all add: q)
  then show ?thesis using assms(1) g
    by (simp add: Json_get_def CheckConnection_def invalidKey_def split_dot_append
        get_loop_append q)
qed

lemma Mongo_get_final_absent:
  assumes "linked mdb" "Mongo_get mdb p = Return (l, Some (JObj kvs))"
    and "firstKey (split_dot q) \<notin> set (map fst kvs)"
    and "firstKey (split_dot q) \<notin> set objectMembers"
  shows "Mongo_get mdb (p @ ''.'' @ q) = Return (NotFound, None)"
proof -
  from assms(1,2) obtain dv where pn: "p \<noteq> []"
    and f: "findOne mdb (firstKey (split_dot p)) = Some dv"
    and g: "getNestedValue (JObj [(firstKey (split_dot p), dv)]) (split_dot p)
              = Inr (Some (JObj kvs))"
    by (rule Mongo_get_parts)
  obtain k ks where q: "split_dot q = k # ks"
    using split_dot_nonempty [of q] by (cases "split_dot q") auto
  from assms(3,4) have "getNestedValue (JObj kvs) (k # ks) = Inr None"
    by (simp add: q hasProp_def)
  then show ?thesis using assms(1) f g
    by (simp add: Mongo_get_def checkConnection_def invalidKey_def split_dot_append
        getNestedValue_append firstKey_append split_dot_nonempty Let_def q)
qed

text \<open>
  Where \<^verbatim>\<open>get\<close> answers that there is no value. Let \<open>p\<close> be a non-empty key and
  \<open>p.q\<close> a key that extends it.
  In the remote backend, if \<^verbatim>\<open>get(p)\<close> finds nothing, or finds \<^verbatim>\<open>null\<close>, a boolean,
  a number or a string, then \<^verbatim>\<open>get(p.q)\<close> logs "not found" and returns no value.
  In the file backend, if \<^verbatim>\<open>get(p)\<close> returns no value then \<^verbatim>\<open>get(p.q)\<close> returns none
  with the same log, and if \<^verbatim>\<open>get(p)\<close> finds \<^verbatim>\<open>null\<close> then \<^verbatim>\<open>get(p.q)\<close> logs a
  failure and returns no value.
  In both backends, if \<^verbatim>\<open>get(p)\<close> finds an object that has no property named as the
  first segment of \<open>q\<close>, and that segment is not the name of a member of
  \<^verbatim>\<open>Object.prototype\<close>, then \<^verbatim>\<open>get(p.q)\<close> logs "not found" and returns no value.
\<close>

theorem get_without_value:
  assumes "connected jdb" and "linked mdb" and "p \<noteq> []"
  shows
   "(\<forall>l r. Mongo_get mdb p = Return (l, r) \<and>
       (case r of Some (JArr xs) \<Rightarrow> False | Some (JObj kvs) \<Rightarrow> False | _ \<Rightarrow> True)
       \<longrightarrow> Mongo_get mdb (p @ ''.'' @ q) = Return (NotFound, None))
    \<and> (\<forall>l. Json_get jdb p = Return (l, None)
       \<longrightarrow> Json_get jdb (p @ ''.'' @ q) = Return (l, None))
    \<and> (\<forall>l. Json_get jdb p = Return (l, Some JNull)
       \<longrightarrow> Json_get jdb (p @ ''.'' @ q) = Return (Failed, None))
    \<and> (\<forall>l kvs. Json_get jdb p = Return (l, Some (JObj kvs)) \<and>
          firstKey (split_dot q) \<notin> set (map fst kvs) \<and>
          firstKey (split_dot q) \<notin> set objectMembers
       \<longrightarrow> Json_get jdb (p @ ''.'' @ q) = Return (NotFound, None))
    \<and> (\<forall>l kvs. Mongo_get mdb p = Return (l, Some (JObj kvs)) \<and>
          firstKey (split_dot q) \<notin> set (map fst kvs) \<and>
          firstKey (split_dot q) \<notin> set objectMembers
       \<longrightarrow> Mongo_get mdb (p @ ''.'' @ q) = Return (NotFound, None))"
  using Mongo_get_through_scalar [OF assms(2,3), of _ _ q]
    Json_get_through_nothing [OF assms(1,3), of _ q]
    Json_get_through_null [OF assms(1), of p _ q]
    Json_get_final_absent [OF assms(1), of p _ _ q]
    Mongo_get_final_absent [OF assms(2), of p _ _ q]
  by blast

theorem get_without_value_witness:
  "Mongo_get \<lparr>linked = True, records = [(''a'', JStr ''hello''), (''o'', JObj [(''x'', JNum 1)])]\<rparr>
        ''a.length'' = Return (NotFound, None)
   \<and> Json_get \<lparr>connected = True, fileData = Some [(''a'', JNull), (''o'', JObj [(''x'', JNum 1)])]\<rparr>
        ''z.b'' = Return (NotFound, None)
   \<and> Json_get \<lparr>connected = True, fileData = Some [(''a'', JNull), (''o'', JObj [(''x'', JNum 1)])]\<rparr>
        ''a.b'' = Return (Failed, None)
   \<and> Json_get \<lparr>connected = True, fileData = Some [(''a'', JNull), (''o'', JObj [(''x'', JNum 1)])]\<rparr>
        ''o.y'' = Return (NotFound, None)
   \<and> Mongo_get \<lparr>linked = True, records = [(''a'', JStr ''hello''), (''o'', JObj [(''x'', JNum 1)])]\<rparr>
        ''o.y'' = Return (NotFound, None)"
proof -
  let ?J = "\<lparr>connected = True, fileData = Some [(''a'', JNull), (''o'', JObj [(''x'', JNum 1)])]\<rparr>"
  let ?M = "\<lparr>linked = True, records = [(''a'', JStr ''hello''), (''o'', JObj [(''x'', JNum 1)])]\<rparr>"
  have c: "connected ?J" "linked ?M" by simp_all
  have ja: "Json_get ?J ''a'' = Return (Done, Some JNull)"
    and jo: "Json_get ?J ''o'' = Return (Done, Some (JObj [(''x'', JNum 1)]))"
    and jz: "Json_get ?J ''z'' = Return (NotFound, None)"
    by (simp_all add: Json_get_def eval_defs)
  have ma: "Mongo_get ?M ''a'' = Return (Done, Some (JStr ''hello''))"
    and mo: "Mongo_get ?M ''o'' = Return (Done, Some (JObj [(''x'', JNum 1)]))"
    by (simp_all add: Mongo_get_def eval_defs)
  have y: "firstKey (split_dot ''y'') \<notin> set objectMembers" by (simp add: objectMembers_def)
  have 1: "Mongo_get ?M (''a'' @ ''.'' @ ''length'') = Return (NotFound, None)"
    using get_without_value [OF c, of "''a''" "''length''"] ma by simp
  have 2: "Json_get ?J (''z'' @ ''.'' @ ''b'') = Return (NotFound, None)"
    using get_without_value [OF c, of "''z''" "''b''"] jz by simp
  have 3: "Json_get ?J (''a'' @ ''.'' @ ''b'') = Return (Failed, None)"
    using get_without_value [OF c, of "''a''" "''b''"] ja by simp
  have 4: "Json_get ?J (''o'' @ ''.'' @ ''y'') = Return (NotFound, None)"
    using get_without_value [OF c, of "''o''" "''y''"] jo y by simp
  have 5: "Mongo_get ?M (''o'' @ ''.'' @ ''y'') = Return (NotFound, None)"
    using get_without_value [OF c, of "''o''" "''y''"] mo y by simp
  from 1 2 3 4 5 show ?thesis by simp
qed

lemma has_loop_True_container:
  "has_loop w (k # ks) = Inr True \<Longrightarrow> truthy w \<and> typeofObject w"
  by (cases w) (auto split: if_splits)

lemma final_nonnumber:
  assumes "getProp cur k = Inr (Some w)" "\<forall>m. w \<noteq> JNum m"
  shows "add_final rt n cur k = Inr (NotANumber, cur)"
    and "subtract_final rt n cur k = Inr (NotANumber, cur)"
  using assms by (cases w; simp add: add_final_def subtract_final_def)+

lemma add_final_nonnumber:
  assumes "has_loop cur keys = Inr True" "keys \<noteq> []" "get_loop cur keys = Inr (Some w)"
    "\<forall>m. w \<noteq> JNum m"
  shows "\<exists>c. write_resolve rt (add_final rt n) cur keys = Inr (NotANumber, c)
         \<and> write_resolve rt (subtract_final rt n) cur keys = Inr (NotANumber, c)"
  using assms
proof (induction keys arbitrary: cur)
  case Nil
  then show ?case by simp
next
  case (Cons k ks)
  from Cons.prems(3) obtain w1 where w1: "getProp cur k = Inr (Some w1)"
    "ownProp cur k = Some w1" "get_loop w1 ks = Inr (Some w)" by (rule get_loop_Cons_obtain)
  show ?case
  proof (cases ks)
    case Nil
    with w1(3) have "w1 = w" by simp
    with w1(1) have "getProp cur k = Inr (Some w)" by simp
    from final_nonnumber [OF this Cons.prems(4)] show ?thesis
      unfolding Nil by simp
  next
    case ks: (Cons k' ks')
    have c: "truthy cur \<and> typeofObject cur"
      using Cons.prems(1) by (rule has_loop_True_container)
    have h: "has_loop w1 ks = Inr True"
      using Cons.prems(1) has_loop_step [OF c w1(2), of ks] by simp
    have "truthy w1 \<and> typeofObject w1"
      using h unfolding ks by (rule has_loop_True_container)
    then have st: "truthy w1" "typeofObject w1" by simp_all
    have "ks \<noteq> []" by (simp add: ks)
    from Cons.IH [OF h this w1(3) Cons.prems(4)]
    obtain c where c: "write_resolve rt (add_final rt n) w1 (k' # ks') = Inr (NotANumber, c)"
      "write_resolve rt (subtract_final rt n) w1 (k' # ks') = Inr (NotANumber, c)"
      unfolding ks by blast
    show ?thesis unfolding ks by (simp add: w1(1) st c)
  qed
qed

lemma Json_add_nonnumber:
  assumes "connected jdb" "Json_has jdb key = Return (Done, True)"
    "Json_get jdb key = Return (l, Some w)" "\<forall>m. w \<noteq> JNum m"
  shows "Json_add rt jdb key (Some (JNum n)) = Return (NotANumber, jdb)
       \<and> Json_subtract rt jdb key (Some (JNum n)) = Return (NotANumber, jdb)"
proof -
  let ?d = "JObj (ReadDatabase jdb)"
  from Json_get_parts [OF assms(1,3)]
  have g: "get_loop ?d (split_dot key) = Inr (Some w)" and k: "key \<noteq> []" by simp_all
  have h: "has_loop ?d (split_dot key) = Inr True"
  proof (cases "has_loop ?d (split_dot key)")
    case (Inl s)
    then show ?thesis using assms(1,2) k
      by (cases s) (simp_all add: Json_has_def CheckConnection_def invalidKey_def)
  next
    case (Inr b)
    then show ?thesis using assms(1,2) k
      by (simp add: Json_has_def CheckConnection_def invalidKey_def)
  qed
  from add_final_nonnumber [OF h split_dot_nonempty g assms(4), of rt n]
  show ?thesis using assms(1) k
    by (auto simp: Json_add_def Json_subtract_def CheckConnection_def invalidKey_def)
qed

lemma Mongo_add_nonnumber:
  assumes "linked mdb" "Mongo_get mdb key = Return (l, Some w)" "\<forall>m. w \<noteq> JNum m"
  shows "Mongo_add rt mdb key (Some (JNum n)) = Return (NotANumber, mdb)
       \<and> Mongo_subtract rt mdb key (Some (JNum n)) = Return (NotANumber, mdb)"
proof -
  from assms(1,2) obtain dv where k: "key \<noteq> []" by (rule Mongo_get_parts)
  then show ?thesis using assms
    by (cases w) (simp_all add: Mongo_add_def Mongo_subtract_def checkConnection_def
        invalidKey_def)
qed

text \<open>
  The type guard of \<^verbatim>\<open>add\<close> and \<^verbatim>\<open>subtract\<close>. In the file backend, when \<^verbatim>\<open>has(k)\<close>
  is true and \<^verbatim>\<open>get(k)\<close> returns a value that is not a number, both methods log the
  type warning and leave the stored document as it was. In the remote backend the same
  holds whenever \<^verbatim>\<open>get(k)\<close> returns a value that is not a number.
\<close>

theorem type_guard_of_add:
  assumes "connected jdb" and "linked mdb"
  shows
   "(\<forall>l w. Json_has jdb key = Return (Done, True) \<and> Json_get jdb key = Return (l, Some w)
        \<and> (\<forall>m. w \<noteq> JNum m)
      \<longrightarrow> Json_add rt jdb key (Some (JNum n)) = Return (NotANumber, jdb)
        \<and> Json_subtract rt jdb key (Some (JNum n)) = Return (NotANumber, jdb))
    \<and> (\<forall>l w. Mongo_get mdb key = Return (l, Some w) \<and> (\<forall>m. w \<noteq> JNum m)
      \<longrightarrow> Mongo_add rt mdb key (Some (JNum n)) = Return (NotANumber, mdb)
        \<and> Mongo_subtract rt mdb key (Some (JNum n)) = Return (NotANumber, mdb))"
  using Json_add_nonnumber [OF assms(1), of key _ _ rt n]
    Mongo_add_nonnumber [OF assms(2), of key _ _ rt n]
  by blast

theorem type_guard_of_add_witness:
  "Json_add (\<lambda>v. None) \<lparr>connected = True, fileData = Some [(''a'', JStr ''x'')]\<rparr> ''a'' (Some (JNum 3))
     = Return (NotANumber, \<lparr>connected = True, fileData = Some [(''a'', JStr ''x'')]\<rparr>)
   \<and> Mongo_subtract (\<lambda>v. None) \<lparr>linked = True, records = [(''a'', JStr ''x'')]\<rparr> ''a'' (Some (JNum 3))
     = Return (NotANumber, \<lparr>linked = True, records = [(''a'', JStr ''x'')]\<rparr>)"
proof -
  let ?J = "\<lparr>connected = True, fileData = Some [(''a'', JStr ''x'')]\<rparr>"
  let ?M = "\<lparr>linked = True, records = [(''a'', JStr ''x'')]\<rparr>"
  have c: "connected ?J" "linked ?M" by simp_all
  have ha: "Json_has ?J ''a'' = Return (Done, True)"
    and ga: "Json_get ?J ''a'' = Return (Done, Some (JStr ''x''))"
    by (simp_all add: Json_has_def Json_get_def eval_defs)
  have ma: "Mongo_get ?M ''a'' = Return (Done, Some (JStr ''x''))"
    by (simp add: Mongo_get_def eval_defs)
  note T1 = type_guard_of_add [OF c, of "''a''" "\<lambda>v. None" 3]
  show ?thesis using T1 ha ga ma by simp
qed

text \<open>
  \<^verbatim>\<open>set\<close> of the remote backend on a key whose first segment has a record with a truthy
  value: whatever the rest of the key and the new value are, the method assigns to
  \<^verbatim>\<open>document.value\<close> the value the document holds, so \<^verbatim>\<open>save\<close> writes nothing and
  the collection stays as it was.
\<close>

theorem remote_set_keeps_record:
  assumes "linked mdb" and "key \<noteq> []"
    and "findOne mdb (firstKey (split_dot key)) = Some old" and "truthy old"
    and "Mongo_set rt mdb key (Some v) = Return (l, mdb')"
  shows "mdb' = mdb"
  using Mongo_set_keeps_truthy_record [OF assms] .

theorem remote_set_keeps_record_witness:
  "Mongo_set (\<lambda>v. None) \<lparr>linked = True, records = [(''a'', JObj [(''b'', JNum 1)])]\<rparr>
       ''a.b'' (Some (JNum 2))
     = Return (Done, \<lparr>linked = True, records = [(''a'', JObj [(''b'', JNum 1)])]\<rparr>)"
proof -
  let ?M = "\<lparr>linked = True, records = [(''a'', JObj [(''b'', JNum 1)])]\<rparr>"
  have s: "\<exists>l mdb'. Mongo_set (\<lambda>v. None) ?M ''a.b'' (Some (JNum 2)) = Return (l, mdb') \<and> l = Done"
    by (simp add: Mongo_set_def eval_defs)
  then obtain l mdb' where r: "Mongo_set (\<lambda>v. None) ?M ''a.b'' (Some (JNum 2)) = Return (l, mdb')"
    and l: "l = Done" by blast
  have "linked ?M" "''a.b'' \<noteq> []"
    "findOne ?M (firstKey (split_dot ''a.b'')) = Some (JObj [(''b'', JNum 1)])"
    "truthy (JObj [(''b'', JNum 1)])"
    by (simp_all add: findOne_def)
  from remote_set_keeps_record [OF this r] r l show ?thesis by simp
qed

end
